theory Spec2Isabelle
  imports Main
begin

section \<open>The pooled relational client of \<^verbatim>\<open>src/db/db.py\<close>\<close>

text \<open>
  The class \<^verbatim>\<open>DB\<close> wraps a \<^verbatim>\<open>psycopg2\<close> connection pool. Its methods are
  embedded as state transformers that return either the raised exception or the value,
  together with the list of calls they made to the driver and to the logger. The driver
  itself is not part of the repository: the pool object is modelled by its bookkeeping
  (\<^verbatim>\<open>closed\<close>, \<^verbatim>\<open>_pool\<close>, \<^verbatim>\<open>_used\<close>, \<^verbatim>\<open>_keys\<close>), and everything the
  database server decides (whether a connection, a statement, a commit, a rollback or a
  close succeeds, and which rows come back) is a parameter of type \<open>server\<close>.
\<close>

subsection \<open>Values and exceptions\<close>

datatype pyval = PNone | PInt int | PStr string

text \<open>
  An exception instance: its class name, the text of \<^verbatim>\<open>str(e)\<close> and its
  \<^verbatim>\<open>__context__\<close>. Every exception of the model is an instance of
  \<^verbatim>\<open>Exception\<close>, the class the handlers of \<^verbatim>\<open>db.py\<close> catch.
\<close>

datatype exn = Exn (exn_class: string) (exn_msg: string) (exn_context: "exn option")

text \<open>
  An exception raised while another one is being handled (inside an \<^verbatim>\<open>except\<close>
  clause, or inside a \<^verbatim>\<open>finally\<close> clause that runs because of an exception)
  gets the handled one as its \<^verbatim>\<open>__context__\<close>.
\<close>

definition raised_while :: "exn \<Rightarrow> exn \<Rightarrow> exn" where
  "raised_while handled new = Exn (exn_class new) (exn_msg new) (Some handled)"

fun in_chain :: "exn \<Rightarrow> exn \<Rightarrow> bool" where
  "in_chain e (Exn c m None) = (e = Exn c m None)"
| "in_chain e (Exn c m (Some x)) = (e = Exn c m (Some x) \<or> in_chain e x)"

definition PoolError :: "string \<Rightarrow> exn" where
  "PoolError msg = Exn ''psycopg2.pool.PoolError'' msg None"

definition KeyError :: "string \<Rightarrow> exn" where
  "KeyError k = Exn ''KeyError'' ([CHR 0x27] @ k @ [CHR 0x27]) None"

definition AttributeError :: "string \<Rightarrow> exn" where
  "AttributeError attr =
     Exn ''AttributeError''
       ([CHR 0x27] @ ''NoneType'' @ [CHR 0x27] @ '' object has no attribute ''
          @ [CHR 0x27] @ attr @ [CHR 0x27]) None"

subsection \<open>Objects: configuration, pool, cursor, client\<close>

type_synonym conn = nat

text \<open>
  The configuration dictionary, one optional entry per recognised key
  (\<open>None\<close>: the key is absent).
\<close>

record config =
  cfg_dbname :: "pyval option"
  cfg_user :: "pyval option"
  cfg_password :: "pyval option"
  cfg_host :: "pyval option"
  cfg_port :: "pyval option"
  cfg_minconn :: "int option"
  cfg_maxconn :: "int option"

text \<open>The pool object of the driver (\<^verbatim>\<open>psycopg2.pool.ThreadedConnectionPool\<close>).\<close>

record pool =
  pool_minconn :: int
  pool_maxconn :: int
  pool_closed :: bool
  pool_kwargs :: "pyval list"
  pool_idle :: "conn list"
  pool_used :: "(nat \<times> conn) list"
  pool_keys :: nat

text \<open>A \<^verbatim>\<open>RealDictCursor\<close>: its connection, \<^verbatim>\<open>description\<close> and fetched rows.\<close>

record cursor =
  cur_conn :: conn
  cur_description :: "string list option"
  cur_rows :: "pyval list list"

text \<open>
  The client \<^verbatim>\<open>self\<close> (\<^verbatim>\<open>self.db_config\<close>, \<^verbatim>\<open>self._pool\<close> as the address of
  a pool object or \<open>None\<close>), the store of pool objects, and the counters that name new
  pool objects and new connections.
\<close>

record state =
  self_db_config :: config
  self_pool :: "nat option"
  pools :: "nat \<Rightarrow> pool"
  next_addr :: nat
  next_conn :: nat

subsection \<open>The database server\<close>

text \<open>
  What the server answers: to \<^verbatim>\<open>psycopg2.connect\<close> (by connection arguments and
  by the number of the connection being opened), to \<^verbatim>\<open>connection.cursor\<close>, to
  \<^verbatim>\<open>cursor.execute\<close> (an error, no result set, or the columns and rows of the
  result set), to \<^verbatim>\<open>fetchall\<close>, \<^verbatim>\<open>commit\<close>, \<^verbatim>\<open>rollback\<close> and
  \<^verbatim>\<open>cursor.close\<close> (\<open>None\<close>: the call succeeds); and the condition in which a
  connection is when it is given back to the pool: closed (\<^verbatim>\<open>conn.closed\<close>), or
  open with the transaction status unknown (the link is lost), idle, or anything else
  (a transaction is open or has failed).
\<close>

datatype conn_status = ConnClosed | TxUnknown | TxIdle | TxOpen

record server =
  srv_connect :: "pyval list \<Rightarrow> conn \<Rightarrow> exn option"
  srv_cursor :: "exn option"
  srv_execute :: "string \<Rightarrow> pyval list option \<Rightarrow> exn + (string list \<times> pyval list list) option"
  srv_fetchall :: "exn option"
  srv_commit :: "exn option"
  srv_rollback :: "exn option"
  srv_cursor_close :: "exn option"
  srv_status :: "conn \<Rightarrow> conn_status"

subsection \<open>Calls observed\<close>

datatype event =
    EvLogInfo string
  | EvLogError string
  | EvConnect "conn option"
  | EvConnClose conn
  | EvGetConn "conn option"
  | EvPutConn conn
  | EvCloseAll
  | EvCursor conn bool
  | EvExecute conn string "pyval list option"
  | EvFetchAll conn
  | EvCommit conn
  | EvRollback conn
  | EvCursorClose conn
  | EvReset conn

text \<open>
  \<open>EvRollback\<close> is a call of \<^verbatim>\<open>conn.rollback()\<close> written in \<^verbatim>\<open>db.py\<close>;
  \<open>EvReset\<close> is the rollback that the pool itself applies, inside \<^verbatim>\<open>putconn\<close>, to
  a connection given back with a transaction open. \<open>EvConnClose\<close> is a connection
  closed by the pool.
\<close>

subsection \<open>Control flow\<close>

type_synonym 'a prog = "state \<Rightarrow> (exn + 'a) \<times> event list \<times> state"

definition outcome :: "(exn + 'a) \<times> event list \<times> state \<Rightarrow> exn + 'a" where
  "outcome r = fst r"

definition events :: "(exn + 'a) \<times> event list \<times> state \<Rightarrow> event list" where
  "events r = fst (snd r)"

definition final :: "(exn + 'a) \<times> event list \<times> state \<Rightarrow> state" where
  "final r = snd (snd r)"

definition ret :: "'a \<Rightarrow> 'a prog" where
  "ret x = (\<lambda>s. (Inr x, [], s))"

definition py_raise :: "exn \<Rightarrow> 'a prog" where
  "py_raise e = (\<lambda>s. (Inl e, [], s))"

definition emit :: "event \<Rightarrow> unit prog" where
  "emit ev = (\<lambda>s. (Inr (), [ev], s))"

definition bind_prog :: "'a prog \<Rightarrow> ('a \<Rightarrow> 'b prog) \<Rightarrow> 'b prog" where
  "bind_prog m f = (\<lambda>s.
     case m s of
       (Inl e, evs, s1) \<Rightarrow> (Inl e, evs, s1)
     | (Inr x, evs, s1) \<Rightarrow> (case f x s1 of (r, evs2, s2) \<Rightarrow> (r, evs @ evs2, s2)))"

text \<open>A call made while \<open>e\<close> is being handled: what it raises has \<open>e\<close> as context.\<close>

definition handling :: "exn \<Rightarrow> 'a prog \<Rightarrow> 'a prog" where
  "handling e m = (\<lambda>s.
     case m s of
       (Inl x, evs, s1) \<Rightarrow> (Inl (raised_while e x), evs, s1)
     | (Inr v, evs, s1) \<Rightarrow> (Inr v, evs, s1))"

text \<open>
  \<^verbatim>\<open>try: m finally: fin\<close>. The clause \<open>fin\<close> always runs; when it raises, its
  exception replaces the outcome of \<open>m\<close>; otherwise the outcome of \<open>m\<close> stands.
\<close>

definition try_finally :: "'a prog \<Rightarrow> unit prog \<Rightarrow> 'a prog" where
  "try_finally m fin = (\<lambda>s.
     case m s of
       (r, evs, s1) \<Rightarrow>
         (case fin s1 of
            (Inl f, evs2, s2) \<Rightarrow>
              (Inl (case r of Inl e \<Rightarrow> raised_while e f | Inr _ \<Rightarrow> f), evs @ evs2, s2)
          | (Inr _, evs2, s2) \<Rightarrow> (r, evs @ evs2, s2)))"

text \<open>
  \<^verbatim>\<open>try: m except Exception as e: handler e else: orelse\<close>. The \<^verbatim>\<open>else\<close> clause
  runs after \<open>m\<close> returned, outside the reach of the handler.
\<close>

definition try_except_else :: "'a prog \<Rightarrow> (exn \<Rightarrow> 'b prog) \<Rightarrow> ('a \<Rightarrow> 'b prog) \<Rightarrow> 'b prog" where
  "try_except_else m handler orelse = (\<lambda>s.
     case m s of
       (Inl e, evs, s1) \<Rightarrow> (case handler e s1 of (r, evs2, s2) \<Rightarrow> (r, evs @ evs2, s2))
     | (Inr x, evs, s1) \<Rightarrow> (case orelse x s1 of (r, evs2, s2) \<Rightarrow> (r, evs @ evs2, s2)))"

definition try_except :: "'a prog \<Rightarrow> (exn \<Rightarrow> 'a prog) \<Rightarrow> 'a prog" where
  "try_except m handler = try_except_else m handler ret"

subsection \<open>The logger\<close>

definition logger_info :: "string \<Rightarrow> unit prog" where
  "logger_info msg = emit (EvLogInfo msg)"

definition logger_error :: "string \<Rightarrow> unit prog" where
  "logger_error msg = emit (EvLogError msg)"

subsection \<open>The driver: connections and cursors\<close>

text \<open>
  \<^verbatim>\<open>psycopg2.connect(**kwargs)\<close>: the server accepts or refuses; an accepted
  connection gets the next free number.
\<close>

definition driver_connect :: "server \<Rightarrow> pyval list \<Rightarrow> conn prog" where
  "driver_connect srv kwargs = (\<lambda>s.
     case srv_connect srv kwargs (next_conn s) of
       Some e \<Rightarrow> (Inl e, [EvConnect None], s)
     | None \<Rightarrow>
         (Inr (next_conn s), [EvConnect (Some (next_conn s))],
          s\<lparr>next_conn := Suc (next_conn s)\<rparr>))"

text \<open>\<^verbatim>\<open>connection.cursor(cursor_factory=RealDictCursor)\<close>: a cursor without result.\<close>

definition new_cursor :: "conn \<Rightarrow> cursor" where
  "new_cursor c = \<lparr>cur_conn = c, cur_description = None, cur_rows = []\<rparr>"

definition conn_cursor :: "server \<Rightarrow> conn \<Rightarrow> cursor prog" where
  "conn_cursor srv c = (\<lambda>s.
     case srv_cursor srv of
       Some e \<Rightarrow> (Inl e, [EvCursor c False], s)
     | None \<Rightarrow> (Inr (new_cursor c), [EvCursor c True], s))"

text \<open>
  \<^verbatim>\<open>cursor.execute(query, params)\<close>: on success the cursor holds the result set;
  \<^verbatim>\<open>description\<close> is \<open>None\<close> for a statement without one, and the tuple of its
  columns otherwise.
\<close>

definition cursor_execute ::
  "server \<Rightarrow> cursor \<Rightarrow> string \<Rightarrow> pyval list option \<Rightarrow> cursor prog" where
  "cursor_execute srv cur query params = (\<lambda>s.
     case srv_execute srv query params of
       Inl e \<Rightarrow> (Inl e, [EvExecute (cur_conn cur) query params], s)
     | Inr None \<Rightarrow>
         (Inr (cur\<lparr>cur_description := None, cur_rows := []\<rparr>),
          [EvExecute (cur_conn cur) query params], s)
     | Inr (Some (cols, rows)) \<Rightarrow>
         (Inr (cur\<lparr>cur_description := Some cols, cur_rows := rows\<rparr>),
          [EvExecute (cur_conn cur) query params], s))"

text \<open>
  A \<^verbatim>\<open>RealDictRow\<close>: the row as a dictionary from column name to value, filled
  column by column (a later column of the same name overwrites an earlier one).
\<close>

definition real_dict_row :: "string list \<Rightarrow> pyval list \<Rightarrow> (string \<rightharpoonup> pyval)" where
  "real_dict_row cols vals = map_of (rev (zip cols vals))"

definition cursor_fetchall :: "server \<Rightarrow> cursor \<Rightarrow> ((string \<rightharpoonup> pyval) list) prog" where
  "cursor_fetchall srv cur = (\<lambda>s.
     case srv_fetchall srv of
       Some e \<Rightarrow> (Inl e, [EvFetchAll (cur_conn cur)], s)
     | None \<Rightarrow>
         (case cur_description cur of
            None \<Rightarrow>
              (Inl (Exn ''psycopg2.ProgrammingError'' ''no results to fetch'' None),
               [EvFetchAll (cur_conn cur)], s)
          | Some cols \<Rightarrow>
              (Inr (map (real_dict_row cols) (cur_rows cur)), [EvFetchAll (cur_conn cur)], s)))"

definition cursor_close :: "server \<Rightarrow> cursor \<Rightarrow> unit prog" where
  "cursor_close srv cur = (\<lambda>s.
     case srv_cursor_close srv of
       Some e \<Rightarrow> (Inl e, [EvCursorClose (cur_conn cur)], s)
     | None \<Rightarrow> (Inr (), [EvCursorClose (cur_conn cur)], s))"

definition conn_commit :: "server \<Rightarrow> conn \<Rightarrow> unit prog" where
  "conn_commit srv c = (\<lambda>s.
     case srv_commit srv of
       Some e \<Rightarrow> (Inl e, [EvCommit c], s)
     | None \<Rightarrow> (Inr (), [EvCommit c], s))"

definition conn_rollback :: "server \<Rightarrow> conn \<Rightarrow> unit prog" where
  "conn_rollback srv c = (\<lambda>s.
     case srv_rollback srv of
       Some e \<Rightarrow> (Inl e, [EvRollback c], s)
     | None \<Rightarrow> (Inr (), [EvRollback c], s))"

subsection \<open>The driver: the connection pool\<close>

text \<open>
  The bookkeeping of \<^verbatim>\<open>psycopg2.pool.AbstractConnectionPool\<close>, which
  \<^verbatim>\<open>ThreadedConnectionPool\<close> runs under a lock. The constructor opens
  \<^verbatim>\<open>minconn\<close> connections one after the other and fails with the first refusal.
  \<^verbatim>\<open>getconn\<close>, \<^verbatim>\<open>putconn\<close> and \<^verbatim>\<open>closeall\<close> raise \<^verbatim>\<open>PoolError\<close>
  on a closed pool; \<^verbatim>\<open>getconn\<close> takes the last idle connection, or opens a new
  one while fewer than \<^verbatim>\<open>maxconn\<close> are lent, and raises \<^verbatim>\<open>PoolError\<close>
  otherwise (it never waits). \<^verbatim>\<open>putconn\<close> closes the connection when
  \<^verbatim>\<open>minconn\<close> connections are idle already. Otherwise it looks at the connection:
  one that is closed is dropped, one whose transaction status is unknown is closed and
  dropped, one with a transaction open is rolled back and kept, an idle one is kept. In
  every case the connection is no longer lent. A connection that reports an open
  transaction is live, and the rollback that the pool applies to it is taken to succeed.
\<close>

definition set_pool :: "nat \<Rightarrow> pool \<Rightarrow> state \<Rightarrow> state" where
  "set_pool a p s = s\<lparr>pools := (pools s)(a := p)\<rparr>"

fun connect_n :: "server \<Rightarrow> pyval list \<Rightarrow> nat \<Rightarrow> conn list \<Rightarrow> (conn list) prog" where
  "connect_n srv kwargs 0 acc = ret acc"
| "connect_n srv kwargs (Suc n) acc =
     bind_prog (driver_connect srv kwargs) (\<lambda>c. connect_n srv kwargs n (acc @ [c]))"

definition pool_new :: "server \<Rightarrow> int \<Rightarrow> int \<Rightarrow> pyval list \<Rightarrow> nat prog" where
  "pool_new srv minc maxc kwargs =
     bind_prog (connect_n srv kwargs (nat minc) [])
       (\<lambda>cs s.
          (Inr (next_addr s), [],
           (set_pool (next_addr s)
              \<lparr>pool_minconn = minc, pool_maxconn = maxc, pool_closed = False,
               pool_kwargs = kwargs, pool_idle = cs, pool_used = [], pool_keys = 0\<rparr> s)
             \<lparr>next_addr := Suc (next_addr s)\<rparr>))"

definition pool_getconn :: "server \<Rightarrow> nat \<Rightarrow> conn prog" where
  "pool_getconn srv a = (\<lambda>s.
     let p = pools s a in
     if pool_closed p then
       (Inl (PoolError ''connection pool is closed''), [EvGetConn None], s)
     else
       let key = Suc (pool_keys p); p1 = p\<lparr>pool_keys := key\<rparr> in
       case map_of (pool_used p1) key of
         Some c \<Rightarrow> (Inr c, [EvGetConn (Some c)], set_pool a p1 s)
       | None \<Rightarrow>
           if pool_idle p1 \<noteq> [] then
             let c = last (pool_idle p1) in
             (Inr c, [EvGetConn (Some c)],
              set_pool a (p1\<lparr>pool_idle := butlast (pool_idle p1),
                             pool_used := (key, c) # pool_used p1\<rparr>) s)
           else if int (length (pool_used p1)) = pool_maxconn p1 then
             (Inl (PoolError ''connection pool exhausted''), [EvGetConn None], set_pool a p1 s)
           else
             (case driver_connect srv (pool_kwargs p1) (set_pool a p1 s) of
                (Inl e, evs, s2) \<Rightarrow> (Inl e, evs @ [EvGetConn None], s2)
              | (Inr c, evs, s2) \<Rightarrow>
                  (Inr c, evs @ [EvGetConn (Some c)],
                   set_pool a (p1\<lparr>pool_used := (key, c) # pool_used p1\<rparr>) s2)))"

text \<open>The key under which a connection is lent (\<^verbatim>\<open>_rused.get(id(conn))\<close>).\<close>

definition key_of :: "(nat \<times> conn) list \<Rightarrow> conn \<Rightarrow> nat option" where
  "key_of used c = map_of (map (\<lambda>(k, c'). (c', k)) used) c"

definition pool_putconn :: "server \<Rightarrow> nat \<Rightarrow> conn \<Rightarrow> unit prog" where
  "pool_putconn srv a c = (\<lambda>s.
     let p = pools s a in
     if pool_closed p then
       (Inl (PoolError ''connection pool is closed''), [EvPutConn c], s)
     else
       case key_of (pool_used p) c of
         None \<Rightarrow> (Inl (PoolError ''trying to put unkeyed connection''), [EvPutConn c], s)
       | Some key \<Rightarrow>
           let lent = filter (\<lambda>(k, _). k \<noteq> key) (pool_used p) in
           if int (length (pool_idle p)) < pool_minconn p then
             (case srv_status srv c of
                ConnClosed \<Rightarrow>
                  (Inr (), [EvPutConn c], set_pool a (p\<lparr>pool_used := lent\<rparr>) s)
              | TxUnknown \<Rightarrow>
                  (Inr (), [EvPutConn c, EvConnClose c], set_pool a (p\<lparr>pool_used := lent\<rparr>) s)
              | TxOpen \<Rightarrow>
                  (Inr (), [EvPutConn c, EvReset c],
                   set_pool a (p\<lparr>pool_idle := pool_idle p @ [c], pool_used := lent\<rparr>) s)
              | TxIdle \<Rightarrow>
                  (Inr (), [EvPutConn c],
                   set_pool a (p\<lparr>pool_idle := pool_idle p @ [c], pool_used := lent\<rparr>) s))
           else
             (Inr (), [EvPutConn c, EvConnClose c], set_pool a (p\<lparr>pool_used := lent\<rparr>) s))"

definition pool_closeall :: "nat \<Rightarrow> unit prog" where
  "pool_closeall a = (\<lambda>s.
     let p = pools s a in
     if pool_closed p then
       (Inl (PoolError ''connection pool is closed''), [EvCloseAll], s)
     else
       (Inr (), EvCloseAll # map EvConnClose (pool_idle p @ map snd (rev (pool_used p))),
        set_pool a (p\<lparr>pool_closed := True\<rparr>) s))"

subsection \<open>The class \<^verbatim>\<open>DB\<close>\<close>

text \<open>\<^verbatim>\<open>d[key]\<close> and \<^verbatim>\<open>d.get(key, default)\<close> on one entry of the configuration.\<close>

definition subscript :: "string \<Rightarrow> 'a option \<Rightarrow> 'a prog" where
  "subscript key entry = (case entry of None \<Rightarrow> py_raise (KeyError key) | Some v \<Rightarrow> ret v)"

definition dict_get :: "'a option \<Rightarrow> 'a \<Rightarrow> 'a" where
  "dict_get entry dflt = (case entry of None \<Rightarrow> dflt | Some v \<Rightarrow> v)"

definition set_self_pool :: "nat option \<Rightarrow> unit prog" where
  "set_self_pool r = (\<lambda>s. (Inr (), [], s\<lparr>self_pool := r\<rparr>))"

definition set_self_db_config :: "config \<Rightarrow> unit prog" where
  "set_self_db_config cfg = (\<lambda>s. (Inr (), [], s\<lparr>self_db_config := cfg\<rparr>))"

text \<open>
  \<^verbatim>\<open>_initialize_connection_pool\<close>: the arguments of the constructor are evaluated
  from left to right, then the pool is built and stored in \<^verbatim>\<open>self._pool\<close>; any
  exception is logged and raised again.
\<close>

definition initialize_connection_pool :: "server \<Rightarrow> unit prog" where
  "initialize_connection_pool srv =
     try_except
       (\<lambda>s. (let cfg = self_db_config s;
                 minc = dict_get (cfg_minconn cfg) 1;
                 maxc = dict_get (cfg_maxconn cfg) 10 in
             bind_prog (subscript ''dbname'' (cfg_dbname cfg)) (\<lambda>dbname.
             bind_prog (subscript ''user'' (cfg_user cfg)) (\<lambda>user.
             bind_prog (subscript ''password'' (cfg_password cfg)) (\<lambda>password.
             bind_prog (subscript ''host'' (cfg_host cfg)) (\<lambda>host.
             bind_prog (subscript ''port'' (cfg_port cfg)) (\<lambda>port.
             bind_prog (pool_new srv minc maxc [dbname, user, password, host, port]) (\<lambda>a.
             bind_prog (set_self_pool (Some a)) (\<lambda>_.
             logger_info ''Connection pool initialized successfully.'')))))))) s)
       (\<lambda>e. bind_prog (logger_error (''Failed to initialize connection pool: '' @ exn_msg e))
              (\<lambda>_. py_raise e))"

text \<open>\<^verbatim>\<open>__init__\<close> (\<^verbatim>\<open>_setup_logging\<close> only configures the logger).\<close>

definition DB_init :: "server \<Rightarrow> config \<Rightarrow> unit prog" where
  "DB_init srv db_config =
     bind_prog (set_self_db_config db_config) (\<lambda>_.
     bind_prog (set_self_pool None) (\<lambda>_.
     initialize_connection_pool srv))"

text \<open>\<^verbatim>\<open>self._pool.getconn()\<close> and \<^verbatim>\<open>self._pool.putconn(conn)\<close>\<close>

definition self_getconn :: "server \<Rightarrow> conn prog" where
  "self_getconn srv = (\<lambda>s.
     case self_pool s of
       None \<Rightarrow> (Inl (AttributeError ''getconn''), [], s)
     | Some a \<Rightarrow> pool_getconn srv a s)"

definition self_putconn :: "server \<Rightarrow> conn \<Rightarrow> unit prog" where
  "self_putconn srv c = (\<lambda>s.
     case self_pool s of
       None \<Rightarrow> (Inl (AttributeError ''putconn''), [], s)
     | Some a \<Rightarrow> pool_putconn srv a c s)"

text \<open>
  The context manager \<^verbatim>\<open>_get_connection\<close>, with the body of the \<^verbatim>\<open>with\<close>
  statement in the place of \<^verbatim>\<open>yield\<close>. When \<^verbatim>\<open>getconn\<close> raises,
  \<^verbatim>\<open>conn\<close> is still \<^verbatim>\<open>None\<close> and the \<^verbatim>\<open>finally\<close> clause does nothing; a
  connection object is true, so every acquired connection is put back.
\<close>

definition get_connection :: "server \<Rightarrow> (conn \<Rightarrow> 'a prog) \<Rightarrow> 'a prog" where
  "get_connection srv body = (\<lambda>s.
     case self_getconn srv s of
       (Inl e, evs, s1) \<Rightarrow> (Inl e, evs, s1)
     | (Inr conn, evs, s1) \<Rightarrow>
         (case try_finally (body conn) (self_putconn srv conn) s1 of
            (r, evs2, s2) \<Rightarrow> (r, evs @ evs2, s2)))"

text \<open>The context manager \<^verbatim>\<open>_get_cursor\<close>, in the same way.\<close>

definition get_cursor :: "server \<Rightarrow> conn \<Rightarrow> (cursor \<Rightarrow> 'a prog) \<Rightarrow> 'a prog" where
  "get_cursor srv connection body = (\<lambda>s.
     case conn_cursor srv connection s of
       (Inl e, evs, s1) \<Rightarrow> (Inl e, evs, s1)
     | (Inr cur, evs, s1) \<Rightarrow>
         (case try_finally (body cur) (cursor_close srv cur) s1 of
            (r, evs2, s2) \<Rightarrow> (r, evs @ evs2, s2)))"

text \<open>\<^verbatim>\<open>if cursor.description:\<close> is false for \<^verbatim>\<open>None\<close> and for the empty tuple.\<close>

definition truthy_description :: "string list option \<Rightarrow> bool" where
  "truthy_description d = (case d of None \<Rightarrow> False | Some cols \<Rightarrow> cols \<noteq> [])"

text \<open>
  The \<^verbatim>\<open>try\<close> statement of \<^verbatim>\<open>execute_query\<close>: the statement and the
  fetch are under the handler, the commit is in the \<^verbatim>\<open>else\<close> clause.
\<close>

definition query_block ::
  "server \<Rightarrow> conn \<Rightarrow> cursor \<Rightarrow> string \<Rightarrow> pyval list option
     \<Rightarrow> ((string \<rightharpoonup> pyval) list) prog" where
  "query_block srv conn cur query params =
     try_except_else
       (bind_prog (logger_info (''Executing query: '' @ query)) (\<lambda>_.
        bind_prog (cursor_execute srv cur query params) (\<lambda>cur'.
        if truthy_description (cur_description cur')
        then cursor_fetchall srv cur'
        else ret [])))
       (\<lambda>e. bind_prog (logger_error (''Query execution failed: '' @ exn_msg e)) (\<lambda>_.
             bind_prog (handling e (conn_rollback srv conn)) (\<lambda>_.
             py_raise e)))
       (\<lambda>results. bind_prog (conn_commit srv conn) (\<lambda>_. ret results))"

definition execute_query ::
  "server \<Rightarrow> string \<Rightarrow> pyval list option \<Rightarrow> ((string \<rightharpoonup> pyval) list) prog" where
  "execute_query srv query params =
     get_connection srv (\<lambda>conn.
       get_cursor srv conn (\<lambda>cur.
         query_block srv conn cur query params))"

text \<open>
  The \<^verbatim>\<open>try\<close> statement of \<^verbatim>\<open>execute_non_query\<close>: the commit is under the
  handler too.
\<close>

definition non_query_block ::
  "server \<Rightarrow> conn \<Rightarrow> cursor \<Rightarrow> string \<Rightarrow> pyval list option \<Rightarrow> unit prog" where
  "non_query_block srv conn cur query params =
     try_except
       (bind_prog (logger_info (''Executing non-query: '' @ query)) (\<lambda>_.
        bind_prog (cursor_execute srv cur query params) (\<lambda>_.
        conn_commit srv conn)))
       (\<lambda>e. bind_prog (logger_error (''Non-query execution failed: '' @ exn_msg e)) (\<lambda>_.
             bind_prog (handling e (conn_rollback srv conn)) (\<lambda>_.
             py_raise e)))"

definition execute_non_query :: "server \<Rightarrow> string \<Rightarrow> pyval list option \<Rightarrow> unit prog" where
  "execute_non_query srv query params =
     get_connection srv (\<lambda>conn.
       get_cursor srv conn (\<lambda>cur.
         non_query_block srv conn cur query params))"

text \<open>\<^verbatim>\<open>close\<close>: a pool object is true, whether it is closed or not.\<close>

definition close :: "unit prog" where
  "close = (\<lambda>s.
     case self_pool s of
       None \<Rightarrow> (Inr (), [], s)
     | Some a \<Rightarrow>
         bind_prog (pool_closeall a) (\<lambda>_. logger_info ''Connection pool closed.'') s)"

subsection \<open>Observations on the calls made\<close>

text \<open>
  The connections handed out by \<^verbatim>\<open>getconn\<close>, those given back with
  \<^verbatim>\<open>putconn\<close>, the cursors opened and the cursors closed, each in the order of the
  calls; and the two kinds of release in the order they happened.
\<close>

fun acquired :: "event list \<Rightarrow> conn list" where
  "acquired [] = []"
| "acquired (EvGetConn (Some c) # evs) = c # acquired evs"
| "acquired (ev # evs) = acquired evs"

fun returned :: "event list \<Rightarrow> conn list" where
  "returned [] = []"
| "returned (EvPutConn c # evs) = c # returned evs"
| "returned (ev # evs) = returned evs"

fun cursors_opened :: "event list \<Rightarrow> conn list" where
  "cursors_opened [] = []"
| "cursors_opened (EvCursor c True # evs) = c # cursors_opened evs"
| "cursors_opened (ev # evs) = cursors_opened evs"

fun cursors_closed :: "event list \<Rightarrow> conn list" where
  "cursors_closed [] = []"
| "cursors_closed (EvCursorClose c # evs) = c # cursors_closed evs"
| "cursors_closed (ev # evs) = cursors_closed evs"

fun releases :: "event list \<Rightarrow> event list" where
  "releases [] = []"
| "releases (EvCursorClose c # evs) = EvCursorClose c # releases evs"
| "releases (EvPutConn c # evs) = EvPutConn c # releases evs"
| "releases (ev # evs) = releases evs"

fun commits :: "event list \<Rightarrow> conn list" where
  "commits [] = []"
| "commits (EvCommit c # evs) = c # commits evs"
| "commits (ev # evs) = commits evs"

fun rollbacks :: "event list \<Rightarrow> conn list" where
  "rollbacks [] = []"
| "rollbacks (EvRollback c # evs) = c # rollbacks evs"
| "rollbacks (ev # evs) = rollbacks evs"

text \<open>Connection attempts that the server refused.\<close>

fun refused :: "event list \<Rightarrow> nat" where
  "refused [] = 0"
| "refused (EvConnect None # evs) = Suc (refused evs)"
| "refused (ev # evs) = refused evs"

text \<open>The calls a \<^verbatim>\<open>try\<close> statement of the two methods can make.\<close>

fun stmt_event :: "event \<Rightarrow> bool" where
  "stmt_event (EvLogInfo _) = True"
| "stmt_event (EvLogError _) = True"
| "stmt_event (EvExecute _ _ _) = True"
| "stmt_event (EvFetchAll _) = True"
| "stmt_event (EvCommit _) = True"
| "stmt_event (EvRollback _) = True"
| "stmt_event _ = False"

subsection \<open>A caller issuing calls one after the other\<close>

datatype call = Query string "pyval list option" | NonQuery string "pyval list option"

definition run_call :: "server \<Rightarrow> call \<Rightarrow> unit prog" where
  "run_call srv c =
     (case c of
        Query q ps \<Rightarrow> bind_prog (execute_query srv q ps) (\<lambda>_. ret ())
      | NonQuery q ps \<Rightarrow> execute_non_query srv q ps)"

text \<open>
  Each call runs against the server as it behaves at that moment; the caller catches what
  a call raises and goes on with the next one.
\<close>

fun run_calls :: "(server \<times> call) list \<Rightarrow> state \<Rightarrow> (exn + unit) list \<times> event list \<times> state" where
  "run_calls [] s = ([], [], s)"
| "run_calls ((srv, c) # rest) s =
     (case run_call srv c s of
        (r, evs, s1) \<Rightarrow>
          (case run_calls rest s1 of
             (rs, evs2, s2) \<Rightarrow> (r # rs, evs @ evs2, s2)))"

text \<open>The client has an open pool and no connection of it is lent.\<close>

definition no_lease :: "state \<Rightarrow> bool" where
  "no_lease s =
     (case self_pool s of
        None \<Rightarrow> False
      | Some a \<Rightarrow> \<not> pool_closed (pools s a) \<and> pool_used (pools s a) = [])"

subsection \<open>Sample inputs\<close>

text \<open>
  The configuration of the example at the end of \<^verbatim>\<open>db.py\<close>, a server that answers
  a few statements, and a client before, after construction and after \<^verbatim>\<open>close\<close>.
\<close>

definition sample_config :: config where
  "sample_config =
     \<lparr>cfg_dbname = Some (PStr ''chinook''), cfg_user = Some (PStr ''postgres''),
      cfg_password = Some (PStr ''postgres''), cfg_host = Some (PStr ''localhost''),
      cfg_port = Some (PStr ''5432''), cfg_minconn = Some 1, cfg_maxconn = Some 5\<rparr>"

definition default_size_config :: config where
  "default_size_config = sample_config\<lparr>cfg_minconn := None, cfg_maxconn := None\<rparr>"

definition syntax_error :: exn where
  "syntax_error = Exn ''psycopg2.errors.SyntaxError'' ''syntax error at or near SELEC'' None"

definition connection_refused :: exn where
  "connection_refused = Exn ''psycopg2.OperationalError'' ''connection refused'' None"

definition commit_failure :: exn where
  "commit_failure = Exn ''psycopg2.OperationalError'' ''server closed the connection'' None"

definition sample_server :: server where
  "sample_server =
     \<lparr>srv_connect = (\<lambda>kwargs n. None),
      srv_cursor = None,
      srv_execute = (\<lambda>q ps.
         if q = ''SELECT 1 AS x'' then Inr (Some ([''x''], [[PInt 1]]))
         else if q = ''SELECT FROM customer'' then Inr (Some ([], [[], []]))
         else if q = ''SELEC 1'' then Inl syntax_error
         else Inr None),
      srv_fetchall = None, srv_commit = None, srv_rollback = None,
      srv_cursor_close = None,
      srv_status = (\<lambda>c. TxIdle)\<rparr>"

definition unreachable_server :: server where
  "unreachable_server = sample_server\<lparr>srv_connect := (\<lambda>kwargs n. Some connection_refused)\<rparr>"

definition commit_failing_server :: server where
  "commit_failing_server = sample_server\<lparr>srv_commit := Some commit_failure\<rparr>"

text \<open>
  A server whose backend was killed: the statement fails, so does the rollback, and the
  connection is closed when it is given back.
\<close>

definition connection_lost :: exn where
  "connection_lost =
     Exn ''psycopg2.OperationalError'' ''server closed the connection unexpectedly'' None"

definition rollback_failure :: exn where
  "rollback_failure = Exn ''psycopg2.InterfaceError'' ''connection already closed'' None"

definition killed_server :: server where
  "killed_server =
     sample_server\<lparr>srv_execute := (\<lambda>q ps. Inl connection_lost),
                    srv_rollback := Some rollback_failure,
                    srv_status := (\<lambda>c. ConnClosed)\<rparr>"

definition unset_pool :: pool where
  "unset_pool =
     \<lparr>pool_minconn = 0, pool_maxconn = 0, pool_closed = True, pool_kwargs = [],
      pool_idle = [], pool_used = [], pool_keys = 0\<rparr>"

definition new_client :: state where
  "new_client =
     \<lparr>self_db_config =
        \<lparr>cfg_dbname = None, cfg_user = None, cfg_password = None, cfg_host = None,
         cfg_port = None, cfg_minconn = None, cfg_maxconn = None\<rparr>,
      self_pool = None, pools = (\<lambda>a. unset_pool), next_addr = 0, next_conn = 0\<rparr>"

definition sample_pool :: pool where
  "sample_pool =
     \<lparr>pool_minconn = 1, pool_maxconn = 5, pool_closed = False,
      pool_kwargs = [PStr ''chinook'', PStr ''postgres'', PStr ''postgres'',
                     PStr ''localhost'', PStr ''5432''],
      pool_idle = [0], pool_used = [], pool_keys = 0\<rparr>"

definition ready_client :: state where
  "ready_client =
     \<lparr>self_db_config = sample_config, self_pool = Some 0,
      pools = (\<lambda>a. if a = 0 then sample_pool else unset_pool),
      next_addr = 1, next_conn = 1\<rparr>"

definition closed_client :: state where
  "closed_client = final (close ready_client)"

definition single_pool_client :: state where
  "single_pool_client =
     \<lparr>self_db_config = sample_config\<lparr>cfg_maxconn := Some 1\<rparr>, self_pool = Some 0,
      pools = (\<lambda>a. if a = 0 then sample_pool\<lparr>pool_maxconn := 1\<rparr> else unset_pool),
      next_addr = 1, next_conn = 1\<rparr>"

definition sample_calls :: "(server \<times> call) list" where
  "sample_calls =
     [(sample_server, Query ''SELECT 1 AS x'' None),
      (sample_server, NonQuery ''SELEC 1'' None),
      (killed_server, Query ''SELECT 1 AS x'' None),
      (commit_failing_server, Query ''DELETE FROM customer'' None),
      (sample_server, Query ''SELECT 1 AS x'' None)]"

section \<open>Basic facts\<close>

text \<open>What a program returns, which calls it makes and the state it leaves, part by part.\<close>


lemmas obs_defs = outcome_def events_def final_def

lemma ret_obs: "outcome (ret x s) = Inr x" "events (ret x s) = []" "final (ret x s) = s"
  by (simp_all add: obs_defs ret_def)

lemma py_raise_obs: "outcome (py_raise e s) = Inl e" "events (py_raise e s) = []" "final (py_raise e s) = s"
  by (simp_all add: obs_defs py_raise_def)

lemma logger_obs:
  "outcome (logger_info msg s) = Inr ()" "events (logger_info msg s) = [EvLogInfo msg]"
  "final (logger_info msg s) = s"
  "outcome (logger_error msg s) = Inr ()" "events (logger_error msg s) = [EvLogError msg]"
  "final (logger_error msg s) = s"
  by (simp_all add: obs_defs logger_info_def logger_error_def emit_def)

lemma bind_obs:
  "outcome (bind_prog m f s) =
     (case outcome (m s) of Inl e \<Rightarrow> Inl e | Inr x \<Rightarrow> outcome (f x (final (m s))))"
  "events (bind_prog m f s) =
     (case outcome (m s) of Inl e \<Rightarrow> events (m s)
      | Inr x \<Rightarrow> events (m s) @ events (f x (final (m s))))"
  "final (bind_prog m f s) =
     (case outcome (m s) of Inl e \<Rightarrow> final (m s) | Inr x \<Rightarrow> final (f x (final (m s))))"
  by (simp_all add: obs_defs bind_prog_def split: prod.splits sum.splits)

lemma handling_obs:
  "outcome (handling e m s) =
     (case outcome (m s) of Inl x \<Rightarrow> Inl (raised_while e x) | Inr v \<Rightarrow> Inr v)"
  "events (handling e m s) = events (m s)"
  "final (handling e m s) = final (m s)"
  by (simp_all add: obs_defs handling_def split: prod.splits sum.splits)

lemma try_finally_obs:
  "outcome (try_finally m fin s) =
     (case outcome (fin (final (m s))) of
        Inl f \<Rightarrow> Inl (case outcome (m s) of Inl e \<Rightarrow> raised_while e f | Inr v \<Rightarrow> f)
      | Inr u \<Rightarrow> outcome (m s))"
  "events (try_finally m fin s) = events (m s) @ events (fin (final (m s)))"
  "final (try_finally m fin s) = final (fin (final (m s)))"
  by (simp_all add: obs_defs try_finally_def split: prod.splits sum.splits)

lemma try_except_else_obs:
  "outcome (try_except_else m h g s) =
     (case outcome (m s) of Inl e \<Rightarrow> outcome (h e (final (m s)))
      | Inr x \<Rightarrow> outcome (g x (final (m s))))"
  "events (try_except_else m h g s) =
     events (m s) @ (case outcome (m s) of Inl e \<Rightarrow> events (h e (final (m s)))
      | Inr x \<Rightarrow> events (g x (final (m s))))"
  "final (try_except_else m h g s) =
     (case outcome (m s) of Inl e \<Rightarrow> final (h e (final (m s)))
      | Inr x \<Rightarrow> final (g x (final (m s))))"
  by (simp_all add: obs_defs try_except_else_def split: prod.splits sum.splits)

lemma try_except_obs:
  "outcome (try_except m h s) =
     (case outcome (m s) of Inl e \<Rightarrow> outcome (h e (final (m s))) | Inr x \<Rightarrow> Inr x)"
  "events (try_except m h s) =
     events (m s) @ (case outcome (m s) of Inl e \<Rightarrow> events (h e (final (m s))) | Inr x \<Rightarrow> [])"
  "final (try_except m h s) =
     (case outcome (m s) of Inl e \<Rightarrow> final (h e (final (m s))) | Inr x \<Rightarrow> final (m s))"
  by (simp_all add: try_except_def try_except_else_obs ret_obs split: sum.splits)

lemma conn_cursor_obs:
  "outcome (conn_cursor srv c s) =
     (case srv_cursor srv of Some e \<Rightarrow> Inl e
      | None \<Rightarrow> Inr (new_cursor c))"
  "events (conn_cursor srv c s) = [EvCursor c (srv_cursor srv = None)]"
  "final (conn_cursor srv c s) = s"
  by (simp_all add: obs_defs conn_cursor_def split: option.splits)

lemma cursor_execute_obs:
  "outcome (cursor_execute srv cur q ps s) =
     (case srv_execute srv q ps of Inl e \<Rightarrow> Inl e
      | Inr None \<Rightarrow> Inr (cur\<lparr>cur_description := None, cur_rows := []\<rparr>)
      | Inr (Some (cols, rows)) \<Rightarrow> Inr (cur\<lparr>cur_description := Some cols, cur_rows := rows\<rparr>))"
  "events (cursor_execute srv cur q ps s) = [EvExecute (cur_conn cur) q ps]"
  "final (cursor_execute srv cur q ps s) = s"
  by (simp_all add: obs_defs cursor_execute_def split: option.splits sum.splits prod.splits)

lemma cursor_fetchall_obs:
  "outcome (cursor_fetchall srv cur s) =
     (case srv_fetchall srv of Some e \<Rightarrow> Inl e
      | None \<Rightarrow> (case cur_description cur of
           None \<Rightarrow> Inl (Exn ''psycopg2.ProgrammingError'' ''no results to fetch'' None)
         | Some cols \<Rightarrow> Inr (map (real_dict_row cols) (cur_rows cur))))"
  "events (cursor_fetchall srv cur s) = [EvFetchAll (cur_conn cur)]"
  "final (cursor_fetchall srv cur s) = s"
  by (simp_all add: obs_defs cursor_fetchall_def split: option.splits)

lemma cursor_close_obs:
  "outcome (cursor_close srv cur s) = (case srv_cursor_close srv of Some e \<Rightarrow> Inl e | None \<Rightarrow> Inr ())"
  "events (cursor_close srv cur s) = [EvCursorClose (cur_conn cur)]"
  "final (cursor_close srv cur s) = s"
  by (simp_all add: obs_defs cursor_close_def split: option.splits)

lemma conn_commit_obs:
  "outcome (conn_commit srv c s) = (case srv_commit srv of Some e \<Rightarrow> Inl e | None \<Rightarrow> Inr ())"
  "events (conn_commit srv c s) = [EvCommit c]"
  "final (conn_commit srv c s) = s"
  by (simp_all add: obs_defs conn_commit_def split: option.splits)

lemma conn_rollback_obs:
  "outcome (conn_rollback srv c s) = (case srv_rollback srv of Some e \<Rightarrow> Inl e | None \<Rightarrow> Inr ())"
  "events (conn_rollback srv c s) = [EvRollback c]"
  "final (conn_rollback srv c s) = s"
  by (simp_all add: obs_defs conn_rollback_def split: option.splits)

lemmas stmt_obs = ret_obs py_raise_obs logger_obs bind_obs handling_obs try_except_else_obs
  try_except_obs cursor_execute_obs cursor_fetchall_obs conn_commit_obs conn_rollback_obs

lemma final_query_block: "final (query_block srv c cur q ps s) = s"
  by (simp add: query_block_def stmt_obs split: sum.splits option.splits)

lemma final_non_query_block: "final (non_query_block srv c cur q ps s) = s"
  by (simp add: non_query_block_def stmt_obs split: sum.splits option.splits)

lemma stmt_events_query_block: "list_all stmt_event (events (query_block srv c cur q ps s))"
  by (simp add: query_block_def stmt_obs split: sum.splits option.splits)

lemma stmt_events_non_query_block: "list_all stmt_event (events (non_query_block srv c cur q ps s))"
  by (simp add: non_query_block_def stmt_obs split: sum.splits option.splits)



lemma get_cursor_obs:
  "outcome (get_cursor srv c body s) =
     (case srv_cursor srv of Some e \<Rightarrow> Inl e
      | None \<Rightarrow> outcome (try_finally (body (new_cursor c)) (cursor_close srv (new_cursor c)) s))"
  "events (get_cursor srv c body s) =
     (case srv_cursor srv of Some e \<Rightarrow> [EvCursor c False]
      | None \<Rightarrow> EvCursor c True # events (body (new_cursor c) s) @ [EvCursorClose c])"
  "final (get_cursor srv c body s) =
     (case srv_cursor srv of Some e \<Rightarrow> s | None \<Rightarrow> final (body (new_cursor c) s))"
  by (simp_all add: obs_defs get_cursor_def conn_cursor_def try_finally_def cursor_close_def
      new_cursor_def split: option.splits prod.splits sum.splits)

lemma get_connection_obs:
  "outcome (get_connection srv body s) =
     (case outcome (self_getconn srv s) of Inl e \<Rightarrow> Inl e
      | Inr c \<Rightarrow> outcome (try_finally (body c) (self_putconn srv c) (final (self_getconn srv s))))"
  "events (get_connection srv body s) =
     (case outcome (self_getconn srv s) of Inl e \<Rightarrow> events (self_getconn srv s)
      | Inr c \<Rightarrow> events (self_getconn srv s)
                  @ events (try_finally (body c) (self_putconn srv c) (final (self_getconn srv s))))"
  "final (get_connection srv body s) =
     (case outcome (self_getconn srv s) of Inl e \<Rightarrow> final (self_getconn srv s)
      | Inr c \<Rightarrow> final (try_finally (body c) (self_putconn srv c) (final (self_getconn srv s))))"
  by (simp_all add: obs_defs get_connection_def split: prod.splits sum.splits)

lemma self_getconn_frame:
  "self_pool (final (self_getconn srv s)) = self_pool s"
  "self_db_config (final (self_getconn srv s)) = self_db_config s"
  by (simp_all add: obs_defs self_getconn_def pool_getconn_def driver_connect_def set_pool_def
      Let_def split: option.splits prod.splits sum.splits)

lemma self_putconn_frame:
  "self_pool (final (self_putconn srv c s)) = self_pool s"
  "self_db_config (final (self_putconn srv c s)) = self_db_config s"
  by (simp_all add: obs_defs self_putconn_def pool_putconn_def set_pool_def
      Let_def split: option.splits conn_status.splits)

lemma key_of_present: "map_of used k = Some c \<Longrightarrow> key_of used c \<noteq> None"
proof -
  assume "map_of used k = Some c"
  then have "(k, c) \<in> set used" by (rule map_of_SomeD)
  then have "c \<in> fst ` set (map (\<lambda>(k, c'). (c', k)) used)" by force
  then show ?thesis unfolding key_of_def by (simp add: map_of_eq_None_iff)
qed

lemma key_of_head: "key_of ((k, c) # used) c = Some k"
  by (simp add: key_of_def)

lemma pool_getconn_lent:
  assumes "outcome (pool_getconn srv a s) = Inr c"
  shows "\<not> pool_closed (pools (final (pool_getconn srv a s)) a)
         \<and> key_of (pool_used (pools (final (pool_getconn srv a s)) a)) c \<noteq> None"
proof (cases "pool_closed (pools s a)")
  case True
  with assms show ?thesis by (simp add: obs_defs pool_getconn_def)
next
  case op: False
  show ?thesis
  proof (cases "map_of (pool_used (pools s a)) (Suc (pool_keys (pools s a)))")
    case (Some c')
    with op assms have "c' = c" by (simp add: obs_defs pool_getconn_def Let_def)
    with Some op show ?thesis
      by (simp add: obs_defs pool_getconn_def Let_def set_pool_def key_of_present)
  next
    case nk: None
    show ?thesis
    proof (cases "pool_idle (pools s a) = []")
      case False
      with nk op assms show ?thesis
        by (simp add: obs_defs pool_getconn_def Let_def set_pool_def key_of_head)
    next
      case em: True
      show ?thesis
      proof (cases "int (length (pool_used (pools s a))) = pool_maxconn (pools s a)")
        case True
        with em nk op assms show ?thesis by (simp add: obs_defs pool_getconn_def Let_def)
      next
        case False
        with em nk op assms show ?thesis
          by (simp add: obs_defs pool_getconn_def Let_def set_pool_def key_of_head
              driver_connect_def split: option.splits)
      qed
    qed
  qed
qed


lemma acquired_append: "acquired (xs @ ys) = acquired xs @ acquired ys"
  by (induction xs rule: acquired.induct) simp_all

lemma returned_append: "returned (xs @ ys) = returned xs @ returned ys"
  by (induction xs rule: returned.induct) simp_all

lemma cursors_opened_append: "cursors_opened (xs @ ys) = cursors_opened xs @ cursors_opened ys"
  by (induction xs rule: cursors_opened.induct) simp_all

lemma cursors_closed_append: "cursors_closed (xs @ ys) = cursors_closed xs @ cursors_closed ys"
  by (induction xs rule: cursors_closed.induct) simp_all

lemma releases_append: "releases (xs @ ys) = releases xs @ releases ys"
  by (induction xs rule: releases.induct) simp_all

lemma refused_append: "refused (xs @ ys) = refused xs + refused ys"
  by (induction xs rule: refused.induct) simp_all

lemmas observer_append = acquired_append returned_append cursors_opened_append
  cursors_closed_append releases_append refused_append

lemma stmt_events_silent:
  assumes "list_all stmt_event evs"
  shows "acquired evs = []" and "returned evs = []" and "cursors_opened evs = []"
    and "cursors_closed evs = []" and "releases evs = []" and "refused evs = 0"
  using assms
proof (induction evs)
  case Nil
  { case 1 show ?case by simp }
  { case 2 show ?case by simp }
  { case 3 show ?case by simp }
  { case 4 show ?case by simp }
  { case 5 show ?case by simp }
  { case 6 show ?case by simp }
next
  case (Cons ev evs)
  { case 1 with Cons.IH(1) show ?case by (cases ev) simp_all }
  { case 2 with Cons.IH(2) show ?case by (cases ev) simp_all }
  { case 3 with Cons.IH(3) show ?case by (cases ev) simp_all }
  { case 4 with Cons.IH(4) show ?case by (cases ev) simp_all }
  { case 5 with Cons.IH(5) show ?case by (cases ev) simp_all }
  { case 6 with Cons.IH(6) show ?case by (cases ev) simp_all }
qed

lemma pool_getconn_events:
  "events (pool_getconn srv a s) =
     (if \<not> pool_closed (pools s a)
         \<and> map_of (pool_used (pools s a)) (Suc (pool_keys (pools s a))) = None
         \<and> pool_idle (pools s a) = []
         \<and> int (length (pool_used (pools s a))) \<noteq> pool_maxconn (pools s a)
      then [EvConnect (case outcome (pool_getconn srv a s) of Inl e \<Rightarrow> None | Inr c \<Rightarrow> Some c)]
      else [])
     @ [EvGetConn (case outcome (pool_getconn srv a s) of Inl e \<Rightarrow> None | Inr c \<Rightarrow> Some c)]"
  by (simp add: obs_defs pool_getconn_def driver_connect_def Let_def
      split: option.splits)

lemma pool_putconn_events:
  "events (pool_putconn srv a c s) = [EvPutConn c]
   \<or> events (pool_putconn srv a c s) = [EvPutConn c, EvConnClose c]
   \<or> events (pool_putconn srv a c s) = [EvPutConn c, EvReset c]"
  by (simp add: obs_defs pool_putconn_def Let_def split: option.splits conn_status.splits)


lemma self_getconn_lent_pool:
  assumes "outcome (self_getconn srv s) = Inr c"
  shows "\<exists>a. self_pool (final (self_getconn srv s)) = Some a
            \<and> \<not> pool_closed (pools (final (self_getconn srv s)) a)
            \<and> key_of (pool_used (pools (final (self_getconn srv s)) a)) c \<noteq> None"
proof (cases "self_pool s")
  case None
  with assms show ?thesis by (simp add: self_getconn_def obs_defs)
next
  case (Some a)
  then have eq: "self_getconn srv s = pool_getconn srv a s" by (simp add: self_getconn_def)
  from assms pool_getconn_lent [of srv a s c] Some self_getconn_frame(1) [of srv s]
  show ?thesis by (simp add: eq)
qed

lemma self_getconn_observed:
  "acquired (events (self_getconn srv s)) =
     (case outcome (self_getconn srv s) of Inl e \<Rightarrow> [] | Inr c \<Rightarrow> [c])"
  "returned (events (self_getconn srv s)) = []"
  "cursors_opened (events (self_getconn srv s)) = []"
  "cursors_closed (events (self_getconn srv s)) = []"
  "releases (events (self_getconn srv s)) = []"
proof -
  show "acquired (events (self_getconn srv s)) =
     (case outcome (self_getconn srv s) of Inl e \<Rightarrow> [] | Inr c \<Rightarrow> [c])"
  proof (cases "self_pool s")
    case None
    then show ?thesis by (simp add: self_getconn_def obs_defs)
  next
    case (Some a)
    then have eq: "self_getconn srv s = pool_getconn srv a s" by (simp add: self_getconn_def)
    show ?thesis unfolding eq
      by (subst pool_getconn_events) (simp add: acquired_append split: sum.splits)
  qed
  have shape: "self_getconn srv s = pool_getconn srv a s \<Longrightarrow>
    \<exists>x y. events (self_getconn srv s) = [EvGetConn x] \<or> events (self_getconn srv s) = [EvConnect y, EvGetConn x]" for a
    using pool_getconn_events [of srv a s] by (simp split: if_splits)
  have all: "\<exists>x y. events (self_getconn srv s) = [] \<or> events (self_getconn srv s) = [EvGetConn x]
      \<or> events (self_getconn srv s) = [EvConnect y, EvGetConn x]"
  proof (cases "self_pool s")
    case None
    then show ?thesis by (simp add: self_getconn_def obs_defs)
  next
    case (Some a)
    then have "self_getconn srv s = pool_getconn srv a s" by (simp add: self_getconn_def)
    from shape [OF this] show ?thesis by blast
  qed
  then obtain x y where d: "events (self_getconn srv s) = [] \<or> events (self_getconn srv s) = [EvGetConn x]
      \<or> events (self_getconn srv s) = [EvConnect y, EvGetConn x]" by blast
  from d show "returned (events (self_getconn srv s)) = []" by (cases x; cases y) auto
  from d show "cursors_opened (events (self_getconn srv s)) = []" by (cases x; cases y) auto
  from d show "cursors_closed (events (self_getconn srv s)) = []" by (cases x; cases y) auto
  from d show "releases (events (self_getconn srv s)) = []" by (cases x; cases y) auto
qed

lemma self_putconn_observed:
  assumes "self_pool s = Some a"
  shows "acquired (events (self_putconn srv c s)) = []"
    and "returned (events (self_putconn srv c s)) = [c]"
    and "cursors_opened (events (self_putconn srv c s)) = []"
    and "cursors_closed (events (self_putconn srv c s)) = []"
    and "releases (events (self_putconn srv c s)) = [EvPutConn c]"
    and "refused (events (self_putconn srv c s)) = 0"
proof -
  from assms have eq: "self_putconn srv c s = pool_putconn srv a c s" by (simp add: self_putconn_def)
  have d: "events (self_putconn srv c s) = [EvPutConn c]
          \<or> events (self_putconn srv c s) = [EvPutConn c, EvConnClose c]
          \<or> events (self_putconn srv c s) = [EvPutConn c, EvReset c]"
    unfolding eq by (rule pool_putconn_events)
  from d show "acquired (events (self_putconn srv c s)) = []" by auto
  from d show "returned (events (self_putconn srv c s)) = [c]" by auto
  from d show "cursors_opened (events (self_putconn srv c s)) = []" by auto
  from d show "cursors_closed (events (self_putconn srv c s)) = []" by auto
  from d show "releases (events (self_putconn srv c s)) = [EvPutConn c]" by auto
  from d show "refused (events (self_putconn srv c s)) = 0" by auto
qed

text \<open>The shape of a call: acquire, open the cursor, run the statement, close, put back.\<close>

lemma call_events:
  assumes pure: "\<And>c cur s. final (B c cur s) = s"
  shows "events (get_connection srv (\<lambda>conn. get_cursor srv conn (B conn)) s) =
     events (self_getconn srv s) @
     (case outcome (self_getconn srv s) of
        Inl e \<Rightarrow> []
      | Inr c \<Rightarrow>
          (case srv_cursor srv of
             Some e \<Rightarrow> [EvCursor c False]
           | None \<Rightarrow> EvCursor c True # events (B c (new_cursor c) (final (self_getconn srv s)))
                       @ [EvCursorClose c])
          @ events (self_putconn srv c (final (self_getconn srv s))))"
  by (simp add: get_connection_obs try_finally_obs get_cursor_obs pure
      split: sum.splits option.splits)

lemma call_final:
  assumes pure: "\<And>c cur s. final (B c cur s) = s"
  shows "final (get_connection srv (\<lambda>conn. get_cursor srv conn (B conn)) s) =
     (case outcome (self_getconn srv s) of
        Inl e \<Rightarrow> final (self_getconn srv s)
      | Inr c \<Rightarrow> final (self_putconn srv c (final (self_getconn srv s))))"
  by (simp add: get_connection_obs try_finally_obs get_cursor_obs pure
      split: sum.splits option.splits)

lemma call_observed:
  fixes srv :: server and s :: state and B :: "conn \<Rightarrow> cursor \<Rightarrow> 'a prog"
  assumes pure: "\<And>c cur s. final (B c cur s) = s"
    and stmt: "\<And>c cur s. list_all stmt_event (events (B c cur s))"
  defines "evs \<equiv> events (get_connection srv (\<lambda>conn. get_cursor srv conn (B conn)) s)"
  shows "returned evs = acquired evs"
    and "cursors_closed evs = cursors_opened evs"
    and "releases evs = map EvCursorClose (cursors_opened evs) @ map EvPutConn (acquired evs)"
proof -
  let ?G = "self_getconn srv s"
  show "returned evs = acquired evs"
  proof (cases "outcome ?G")
    case (Inl e)
    then show ?thesis
      by (simp add: evs_def call_events [OF pure] self_getconn_observed)
  next
    case (Inr c)
    from self_getconn_lent_pool [OF Inr] obtain a where a: "self_pool (final ?G) = Some a" by blast
    show ?thesis
      by (simp add: evs_def call_events [OF pure] Inr observer_append self_getconn_observed
          self_putconn_observed [OF a] stmt_events_silent [OF stmt] split: option.splits)
  qed
  show "cursors_closed evs = cursors_opened evs"
  proof (cases "outcome ?G")
    case (Inl e)
    then show ?thesis
      by (simp add: evs_def call_events [OF pure] self_getconn_observed)
  next
    case (Inr c)
    from self_getconn_lent_pool [OF Inr] obtain a where a: "self_pool (final ?G) = Some a" by blast
    show ?thesis
      by (simp add: evs_def call_events [OF pure] Inr observer_append self_getconn_observed
          self_putconn_observed [OF a] stmt_events_silent [OF stmt] split: option.splits)
  qed
  show "releases evs = map EvCursorClose (cursors_opened evs) @ map EvPutConn (acquired evs)"
  proof (cases "outcome ?G")
    case (Inl e)
    then show ?thesis
      by (simp add: evs_def call_events [OF pure] self_getconn_observed)
  next
    case (Inr c)
    from self_getconn_lent_pool [OF Inr] obtain a where a: "self_pool (final ?G) = Some a" by blast
    show ?thesis
      by (simp add: evs_def call_events [OF pure] Inr observer_append self_getconn_observed
          self_putconn_observed [OF a] stmt_events_silent [OF stmt] split: option.splits)
  qed
qed




lemma sample_getconn:
  "outcome (self_getconn srv ready_client) = Inr 0"
  "events (self_getconn srv ready_client) = [EvGetConn (Some 0)]"
  by (simp_all add: obs_defs self_getconn_def pool_getconn_def ready_client_def sample_pool_def
      set_pool_def Let_def)

lemma sample_putconn:
  assumes "srv_status srv 0 = TxIdle"
  shows "outcome (self_putconn srv 0 (final (self_getconn srv ready_client))) = Inr ()"
    and "events (self_putconn srv 0 (final (self_getconn srv ready_client))) = [EvPutConn 0]"
  using assms
  by (simp_all add: obs_defs self_getconn_def pool_getconn_def self_putconn_def pool_putconn_def
      ready_client_def sample_pool_def set_pool_def Let_def key_of_def)

section \<open>Frame of the two execute methods\<close>

text \<open>
  Claim C10. \<^verbatim>\<open>execute_query\<close> and \<^verbatim>\<open>execute_non_query\<close> never assign to the
  client: after a call, whether it returned or raised, \<^verbatim>\<open>self._pool\<close> refers to the
  same pool object and \<^verbatim>\<open>self.db_config\<close> is the same configuration as before.
\<close>

theorem execute_keeps_self:
  "self_pool (final (execute_query srv q ps s)) = self_pool s
   \<and> self_db_config (final (execute_query srv q ps s)) = self_db_config s
   \<and> self_pool (final (execute_non_query srv q ps s)) = self_pool s
   \<and> self_db_config (final (execute_non_query srv q ps s)) = self_db_config s"
  by (simp add: execute_query_def execute_non_query_def call_final final_query_block
      final_non_query_block self_getconn_frame self_putconn_frame split: sum.splits)

lemma query_observed:
  "returned (events (execute_query srv q ps s)) = acquired (events (execute_query srv q ps s))"
  "cursors_closed (events (execute_query srv q ps s)) = cursors_opened (events (execute_query srv q ps s))"
  "releases (events (execute_query srv q ps s)) =
     map EvCursorClose (cursors_opened (events (execute_query srv q ps s)))
     @ map EvPutConn (acquired (events (execute_query srv q ps s)))"
  unfolding execute_query_def
  using call_observed [where B = "\<lambda>conn cur. query_block srv conn cur q ps" and srv = srv and s = s,
      OF final_query_block stmt_events_query_block]
  by simp_all

lemma non_query_observed:
  "returned (events (execute_non_query srv q ps s)) = acquired (events (execute_non_query srv q ps s))"
  "cursors_closed (events (execute_non_query srv q ps s)) = cursors_opened (events (execute_non_query srv q ps s))"
  "releases (events (execute_non_query srv q ps s)) =
     map EvCursorClose (cursors_opened (events (execute_non_query srv q ps s)))
     @ map EvPutConn (acquired (events (execute_non_query srv q ps s)))"
  unfolding execute_non_query_def
  using call_observed [where B = "\<lambda>conn cur. non_query_block srv conn cur q ps" and srv = srv and s = s,
      OF final_non_query_block stmt_events_non_query_block]
  by simp_all

lemma call_counts:
  fixes srv :: server and s :: state and B :: "conn \<Rightarrow> cursor \<Rightarrow> 'a prog"
  assumes pure: "\<And>c cur s. final (B c cur s) = s"
    and stmt: "\<And>c cur s. list_all stmt_event (events (B c cur s))"
  defines "evs \<equiv> events (get_connection srv (\<lambda>conn. get_cursor srv conn (B conn)) s)"
  shows "acquired evs = (case outcome (self_getconn srv s) of Inl e \<Rightarrow> [] | Inr c \<Rightarrow> [c])"
    and "cursors_opened evs =
           (case outcome (self_getconn srv s) of
              Inl e \<Rightarrow> []
            | Inr c \<Rightarrow> if srv_cursor srv = None then [c] else [])"
proof -
  let ?G = "self_getconn srv s"
  show "acquired evs = (case outcome ?G of Inl e \<Rightarrow> [] | Inr c \<Rightarrow> [c])"
  proof (cases "outcome ?G")
    case (Inl e)
    then show ?thesis
      by (simp add: evs_def call_events [OF pure] self_getconn_observed)
  next
    case (Inr c)
    from self_getconn_lent_pool [OF Inr] obtain a where a: "self_pool (final ?G) = Some a" by blast
    show ?thesis
      by (simp add: evs_def call_events [OF pure] Inr observer_append self_getconn_observed
          self_putconn_observed [OF a] stmt_events_silent [OF stmt] split: option.splits)
  qed
  show "cursors_opened evs =
           (case outcome ?G of
              Inl e \<Rightarrow> []
            | Inr c \<Rightarrow> if srv_cursor srv = None then [c] else [])"
  proof (cases "outcome ?G")
    case (Inl e)
    then show ?thesis
      by (simp add: evs_def call_events [OF pure] self_getconn_observed)
  next
    case (Inr c)
    from self_getconn_lent_pool [OF Inr] obtain a where a: "self_pool (final ?G) = Some a" by blast
    show ?thesis
      by (simp add: evs_def call_events [OF pure] Inr observer_append self_getconn_observed
          self_putconn_observed [OF a] stmt_events_silent [OF stmt] split: option.splits)
  qed
qed

lemma query_counts:
  "acquired (events (execute_query srv q ps s)) =
     (case outcome (self_getconn srv s) of Inl e \<Rightarrow> [] | Inr c \<Rightarrow> [c])"
  "cursors_opened (events (execute_query srv q ps s)) =
     (case outcome (self_getconn srv s) of
        Inl e \<Rightarrow> []
      | Inr c \<Rightarrow> if srv_cursor srv = None then [c] else [])"
  unfolding execute_query_def
  using call_counts [where B = "\<lambda>conn cur. query_block srv conn cur q ps" and srv = srv and s = s,
      OF final_query_block stmt_events_query_block]
  by simp_all

lemma non_query_counts:
  "acquired (events (execute_non_query srv q ps s)) =
     (case outcome (self_getconn srv s) of Inl e \<Rightarrow> [] | Inr c \<Rightarrow> [c])"
  "cursors_opened (events (execute_non_query srv q ps s)) =
     (case outcome (self_getconn srv s) of
        Inl e \<Rightarrow> []
      | Inr c \<Rightarrow> if srv_cursor srv = None then [c] else [])"
  unfolding execute_non_query_def
  using call_counts [where B = "\<lambda>conn cur. non_query_block srv conn cur q ps" and srv = srv and s = s,
      OF final_non_query_block stmt_events_non_query_block]
  by simp_all

section \<open>Order of the releases\<close>

text \<open>
  Claim C8. In every call of \<^verbatim>\<open>execute_query\<close> and \<^verbatim>\<open>execute_non_query\<close>,
  whatever the server answers to the statement, the commit, the rollback and the close:
  when \<^verbatim>\<open>getconn\<close> gave the connection \<open>c\<close> and the cursor was created, the
  releases of the call are the close of the cursor and then \<^verbatim>\<open>putconn\<close> of \<open>c\<close>,
  once each and in that order; when the cursor could not be created, the only release is
  \<^verbatim>\<open>putconn\<close> of \<open>c\<close>; when \<^verbatim>\<open>getconn\<close> raised, nothing is released.
\<close>

theorem cursor_closed_before_putconn:
  "releases (events (execute_query srv q ps s)) =
     (case outcome (self_getconn srv s) of
        Inl e \<Rightarrow> []
      | Inr c \<Rightarrow> (if srv_cursor srv = None then [EvCursorClose c] else []) @ [EvPutConn c])
   \<and> releases (events (execute_non_query srv q ps s)) =
     (case outcome (self_getconn srv s) of
        Inl e \<Rightarrow> []
      | Inr c \<Rightarrow> (if srv_cursor srv = None then [EvCursorClose c] else []) @ [EvPutConn c])
   \<and> releases (events (execute_query srv q ps s)) =
     map EvCursorClose (cursors_opened (events (execute_query srv q ps s)))
     @ map EvPutConn (acquired (events (execute_query srv q ps s)))
   \<and> length (acquired (events (execute_query srv q ps s))) \<le> 1
   \<and> (cursors_opened (events (execute_query srv q ps s)) = []
        \<or> cursors_opened (events (execute_query srv q ps s))
            = acquired (events (execute_query srv q ps s)))
   \<and> releases (events (execute_non_query srv q ps s)) =
     map EvCursorClose (cursors_opened (events (execute_non_query srv q ps s)))
     @ map EvPutConn (acquired (events (execute_non_query srv q ps s)))
   \<and> length (acquired (events (execute_non_query srv q ps s))) \<le> 1
   \<and> (cursors_opened (events (execute_non_query srv q ps s)) = []
        \<or> cursors_opened (events (execute_non_query srv q ps s))
            = acquired (events (execute_non_query srv q ps s)))"
  by (auto simp add: query_observed(3) non_query_observed(3) query_counts non_query_counts
      split: sum.splits)

text \<open>
  On the ready client, a statement that succeeds and one that fails: the cursor is closed,
  then the connection is put back.
\<close>

lemma release_order_samples:
  "releases (events (execute_query sample_server ''SELECT 1 AS x'' None ready_client))
     = [EvCursorClose 0, EvPutConn 0]"
  "releases (events (execute_non_query sample_server ''SELEC 1'' None ready_client))
     = [EvCursorClose 0, EvPutConn 0]"
  by (simp_all add: query_observed(3) non_query_observed(3) query_counts non_query_counts
      sample_getconn sample_server_def)

lemma in_chain_refl: "in_chain e e"
proof (cases e)
  case (Exn c m ctx)
  then show ?thesis by (cases ctx) simp_all
qed

lemma in_chain_raised_while: "in_chain e x \<Longrightarrow> in_chain e (raised_while x f)"
  by (simp add: raised_while_def)

lemma self_putconn_ok:
  assumes "self_pool s = Some a" and "\<not> pool_closed (pools s a)"
    and "key_of (pool_used (pools s a)) c \<noteq> None"
  shows "outcome (self_putconn srv c s) = Inr ()"
  using assms
  by (auto simp add: obs_defs self_putconn_def pool_putconn_def Let_def
      split: conn_status.splits)

lemma putconn_after_getconn:
  assumes "outcome (self_getconn srv s) = Inr c"
  shows "outcome (self_putconn srv c (final (self_getconn srv s))) = Inr ()"
proof -
  from self_getconn_lent_pool [OF assms] obtain a where
    "self_pool (final (self_getconn srv s)) = Some a"
    "\<not> pool_closed (pools (final (self_getconn srv s)) a)"
    "key_of (pool_used (pools (final (self_getconn srv s)) a)) c \<noteq> None" by blast
  then show ?thesis by (rule self_putconn_ok)
qed

lemma call_outcome:
  assumes pure: "\<And>c cur s. final (B c cur s) = s"
    and acq: "outcome (self_getconn srv s) = Inr c"
    and cur: "srv_cursor srv = None"
  shows "outcome (get_connection srv (\<lambda>conn. get_cursor srv conn (B conn)) s) =
     (case srv_cursor_close srv of
        None \<Rightarrow> outcome (B c (new_cursor c) (final (self_getconn srv s)))
      | Some f \<Rightarrow>
          Inl (case outcome (B c (new_cursor c) (final (self_getconn srv s))) of
                 Inl e \<Rightarrow> raised_while e f | Inr v \<Rightarrow> f))"
  using putconn_after_getconn [OF acq]
  by (simp add: get_connection_obs try_finally_obs get_cursor_obs cursor_close_obs pure acq cur
      split: option.splits)

lemma call_events_ok:
  assumes pure: "\<And>c cur s. final (B c cur s) = s"
    and acq: "outcome (self_getconn srv s) = Inr c"
    and cur: "srv_cursor srv = None"
  shows "events (get_connection srv (\<lambda>conn. get_cursor srv conn (B conn)) s) =
     events (self_getconn srv s)
     @ EvCursor c True # events (B c (new_cursor c) (final (self_getconn srv s)))
     @ EvCursorClose c # events (self_putconn srv c (final (self_getconn srv s)))"
  by (simp add: call_events [OF pure] acq cur)

lemma query_block_failed:
  assumes "srv_execute srv q ps = Inl e"
  shows "outcome (query_block srv c cur q ps s) =
           Inl (case srv_rollback srv of None \<Rightarrow> e | Some r \<Rightarrow> raised_while e r)"
    and "events (query_block srv c cur q ps s) =
           [EvLogInfo (''Executing query: '' @ q), EvExecute (cur_conn cur) q ps,
            EvLogError (''Query execution failed: '' @ exn_msg e), EvRollback c]"
  using assms by (simp_all add: query_block_def stmt_obs split: option.splits)

lemma non_query_block_failed:
  assumes "srv_execute srv q ps = Inl e"
  shows "outcome (non_query_block srv c cur q ps s) =
           Inl (case srv_rollback srv of None \<Rightarrow> e | Some r \<Rightarrow> raised_while e r)"
    and "events (non_query_block srv c cur q ps s) =
           [EvLogInfo (''Executing non-query: '' @ q), EvExecute (cur_conn cur) q ps,
            EvLogError (''Non-query execution failed: '' @ exn_msg e), EvRollback c]"
  using assms by (simp_all add: non_query_block_def stmt_obs split: option.splits)

lemma cur_conn_new_cursor: "cur_conn (new_cursor c) = c"
  by (simp add: new_cursor_def)

section \<open>A failing statement\<close>

text \<open>
  Claim C1, as the code has it. When a connection and a cursor were obtained and the
  statement fails with the driver error \<open>e\<close>, both methods log the failure and call
  \<^verbatim>\<open>rollback\<close> before anything is released, and the call raises: it never returns
  normally. The exception raised is \<open>e\<close> itself, not wrapped in another class, when the
  rollback and the close of the cursor succeed; if one of them raises, that exception is
  raised with \<open>e\<close> in its chain of contexts.
\<close>

theorem failed_statement_rolled_back_and_raised:
  assumes acq: "outcome (self_getconn srv s) = Inr c"
    and cur: "srv_cursor srv = None"
    and fail: "srv_execute srv q ps = Inl e"
  shows "events (execute_query srv q ps s) =
           events (self_getconn srv s)
           @ [EvCursor c True, EvLogInfo (''Executing query: '' @ q), EvExecute c q ps,
              EvLogError (''Query execution failed: '' @ exn_msg e), EvRollback c,
              EvCursorClose c]
           @ events (self_putconn srv c (final (self_getconn srv s)))
       \<and> events (execute_non_query srv q ps s) =
           events (self_getconn srv s)
           @ [EvCursor c True, EvLogInfo (''Executing non-query: '' @ q), EvExecute c q ps,
              EvLogError (''Non-query execution failed: '' @ exn_msg e), EvRollback c,
              EvCursorClose c]
           @ events (self_putconn srv c (final (self_getconn srv s)))
       \<and> (\<exists>x. outcome (execute_query srv q ps s) = Inl x \<and> in_chain e x)
       \<and> (\<exists>x. outcome (execute_non_query srv q ps s) = Inl x \<and> in_chain e x)
       \<and> (srv_rollback srv = None \<and> srv_cursor_close srv = None \<longrightarrow>
            outcome (execute_query srv q ps s) = Inl e
            \<and> outcome (execute_non_query srv q ps s) = Inl e)"
proof -
  have oq: "outcome (execute_query srv q ps s) =
     (case srv_cursor_close srv of
        None \<Rightarrow> Inl (case srv_rollback srv of None \<Rightarrow> e | Some r \<Rightarrow> raised_while e r)
      | Some f \<Rightarrow> Inl (raised_while (case srv_rollback srv of None \<Rightarrow> e | Some r \<Rightarrow> raised_while e r) f))"
    unfolding execute_query_def
    by (simp add: call_outcome [where B = "\<lambda>conn cur. query_block srv conn cur q ps", OF final_query_block acq cur]
        query_block_failed [OF fail] split: option.splits)
  have on: "outcome (execute_non_query srv q ps s) =
     (case srv_cursor_close srv of
        None \<Rightarrow> Inl (case srv_rollback srv of None \<Rightarrow> e | Some r \<Rightarrow> raised_while e r)
      | Some f \<Rightarrow> Inl (raised_while (case srv_rollback srv of None \<Rightarrow> e | Some r \<Rightarrow> raised_while e r) f))"
    unfolding execute_non_query_def
    by (simp add: call_outcome [where B = "\<lambda>conn cur. non_query_block srv conn cur q ps", OF final_non_query_block acq cur]
        non_query_block_failed [OF fail] split: option.splits)
  have eq: "events (execute_query srv q ps s) =
           events (self_getconn srv s)
           @ [EvCursor c True, EvLogInfo (''Executing query: '' @ q), EvExecute c q ps,
              EvLogError (''Query execution failed: '' @ exn_msg e), EvRollback c,
              EvCursorClose c]
           @ events (self_putconn srv c (final (self_getconn srv s)))"
    unfolding execute_query_def
    by (simp add: call_events_ok [where B = "\<lambda>conn cur. query_block srv conn cur q ps", OF final_query_block acq cur]
        query_block_failed [OF fail] cur_conn_new_cursor)
  have en: "events (execute_non_query srv q ps s) =
           events (self_getconn srv s)
           @ [EvCursor c True, EvLogInfo (''Executing non-query: '' @ q), EvExecute c q ps,
              EvLogError (''Non-query execution failed: '' @ exn_msg e), EvRollback c,
              EvCursorClose c]
           @ events (self_putconn srv c (final (self_getconn srv s)))"
    unfolding execute_non_query_def
    by (simp add: call_events_ok [where B = "\<lambda>conn cur. non_query_block srv conn cur q ps", OF final_non_query_block acq cur]
        non_query_block_failed [OF fail] cur_conn_new_cursor)
  have chain: "in_chain e (case srv_rollback srv of None \<Rightarrow> e | Some r \<Rightarrow> raised_while e r)"
    by (simp add: in_chain_refl in_chain_raised_while split: option.splits)
  have cq: "\<exists>x. outcome (execute_query srv q ps s) = Inl x \<and> in_chain e x"
    unfolding oq using chain by (cases "srv_cursor_close srv") (simp_all add: in_chain_raised_while)
  have cn: "\<exists>x. outcome (execute_non_query srv q ps s) = Inl x \<and> in_chain e x"
    unfolding on using chain by (cases "srv_cursor_close srv") (simp_all add: in_chain_raised_while)
  have same: "srv_rollback srv = None \<and> srv_cursor_close srv = None \<longrightarrow>
            outcome (execute_query srv q ps s) = Inl e
            \<and> outcome (execute_non_query srv q ps s) = Inl e"
    by (simp add: oq on)
  from eq en cq cn same show ?thesis by blast
qed

lemma sample_server_simps:
  "srv_cursor sample_server = None" "srv_fetchall sample_server = None"
  "srv_commit sample_server = None" "srv_rollback sample_server = None"
  "srv_cursor_close sample_server = None"
  "srv_status sample_server c = TxIdle"
  "srv_execute sample_server ''SELEC 1'' ps = Inl syntax_error"
  "srv_execute sample_server ''SELECT 1 AS x'' ps = Inr (Some ([''x''], [[PInt 1]]))"
  "srv_execute sample_server ''SELECT FROM customer'' ps = Inr (Some ([], [[], []]))"
  by (simp_all add: sample_server_def)

text \<open>The sample server rejects \<^verbatim>\<open>SELEC 1\<close>; the ready client sees the syntax error.\<close>

theorem failed_statement_witness:
  "outcome (self_getconn sample_server ready_client) = Inr 0
   \<and> srv_cursor sample_server = None
   \<and> srv_execute sample_server ''SELEC 1'' None = Inl syntax_error
   \<and> events (execute_query sample_server ''SELEC 1'' None ready_client) =
       [EvGetConn (Some 0), EvCursor 0 True, EvLogInfo ''Executing query: SELEC 1'',
        EvExecute 0 ''SELEC 1'' None,
        EvLogError ''Query execution failed: syntax error at or near SELEC'',
        EvRollback 0, EvCursorClose 0, EvPutConn 0]
   \<and> outcome (execute_query sample_server ''SELEC 1'' None ready_client) = Inl syntax_error
   \<and> outcome (execute_non_query sample_server ''SELEC 1'' None ready_client) = Inl syntax_error"
proof -
  have h1: "outcome (self_getconn sample_server ready_client) = Inr 0"
    by (simp add: sample_getconn)
  have h2: "srv_cursor sample_server = None" by (simp add: sample_server_simps)
  have h3: "srv_execute sample_server ''SELEC 1'' None = Inl syntax_error"
    by (simp add: sample_server_simps)
  from failed_statement_rolled_back_and_raised [OF h1 h2 h3] h1 h2 h3
  show ?thesis
    by (simp add: sample_getconn sample_putconn sample_server_simps syntax_error_def)
qed

text \<open>
  The class of the exception raised is the driver's, not \<^verbatim>\<open>QueryExecutionError\<close>
  (a class that \<^verbatim>\<open>db.py\<close> does not define).
\<close>

theorem raised_error_is_not_wrapped:
  "outcome (execute_query sample_server ''SELEC 1'' None ready_client) = Inl syntax_error
   \<and> exn_class syntax_error \<noteq> ''QueryExecutionError''"
proof -
  have h1: "outcome (self_getconn sample_server ready_client) = Inr 0"
    by (simp add: sample_getconn)
  have "outcome (execute_query sample_server ''SELEC 1'' None ready_client) = Inl syntax_error"
    unfolding execute_query_def
    by (simp add: call_outcome [where B = "\<lambda>conn cur. query_block sample_server conn cur ''SELEC 1'' None", OF final_query_block h1]
        query_block_failed sample_server_simps)
  then show ?thesis by (simp add: syntax_error_def)
qed




lemma commits_append: "commits (xs @ ys) = commits xs @ commits ys"
  by (induction xs rule: commits.induct) simp_all

lemma rollbacks_append: "rollbacks (xs @ ys) = rollbacks xs @ rollbacks ys"
  by (induction xs rule: rollbacks.induct) simp_all

lemma self_getconn_shape:
  "\<exists>x y. events (self_getconn srv s) = [] \<or> events (self_getconn srv s) = [EvGetConn x]
      \<or> events (self_getconn srv s) = [EvConnect y, EvGetConn x]"
proof (cases "self_pool s")
  case None
  then show ?thesis by (simp add: self_getconn_def obs_defs)
next
  case (Some a)
  then have "self_getconn srv s = pool_getconn srv a s" by (simp add: self_getconn_def)
  with pool_getconn_events [of srv a s] show ?thesis by (simp split: if_splits)
qed

lemma self_putconn_shape:
  "events (self_putconn srv c s) = [] \<or> events (self_putconn srv c s) = [EvPutConn c]
   \<or> events (self_putconn srv c s) = [EvPutConn c, EvConnClose c]
   \<or> events (self_putconn srv c s) = [EvPutConn c, EvReset c]"
proof (cases "self_pool s")
  case None
  then show ?thesis by (simp add: self_putconn_def obs_defs)
next
  case (Some a)
  then have "self_putconn srv c s = pool_putconn srv a c s" by (simp add: self_putconn_def)
  with pool_putconn_events [of srv a c s] show ?thesis by auto
qed

lemma pool_calls_silent:
  "commits (events (self_getconn srv s)) = []" "rollbacks (events (self_getconn srv s)) = []"
  "commits (events (self_putconn srv c s)) = []" "rollbacks (events (self_putconn srv c s)) = []"
proof -
  from self_getconn_shape [of srv s] obtain x y where
    g: "events (self_getconn srv s) = [] \<or> events (self_getconn srv s) = [EvGetConn x]
      \<or> events (self_getconn srv s) = [EvConnect y, EvGetConn x]" by blast
  from g show "commits (events (self_getconn srv s)) = []" by auto
  from g show "rollbacks (events (self_getconn srv s)) = []" by auto
  from self_putconn_shape [of srv c s] show "commits (events (self_putconn srv c s)) = []" by auto
  from self_putconn_shape [of srv c s] show "rollbacks (events (self_putconn srv c s)) = []" by auto
qed

lemma query_block_commit_failed:
  assumes "srv_execute srv q ps = Inr rs" and "srv_fetchall srv = None"
    and "srv_commit srv = Some ce"
  shows "outcome (query_block srv c cur q ps s) = Inl ce"
    and "events (query_block srv c cur q ps s) =
           [EvLogInfo (''Executing query: '' @ q), EvExecute (cur_conn cur) q ps]
           @ (if truthy_description (map_option fst rs) then [EvFetchAll (cur_conn cur)] else [])
           @ [EvCommit c]"
  using assms
  by (simp_all add: query_block_def stmt_obs truthy_description_def
      split: option.splits prod.splits)

lemma non_query_block_commit_failed:
  assumes "srv_execute srv q ps = Inr rs" and "srv_commit srv = Some ce"
  shows "outcome (non_query_block srv c cur q ps s) =
           Inl (case srv_rollback srv of None \<Rightarrow> ce | Some r \<Rightarrow> raised_while ce r)"
    and "events (non_query_block srv c cur q ps s) =
           [EvLogInfo (''Executing non-query: '' @ q), EvExecute (cur_conn cur) q ps, EvCommit c,
            EvLogError (''Non-query execution failed: '' @ exn_msg ce), EvRollback c]"
  using assms
  by (simp_all add: non_query_block_def stmt_obs split: option.splits prod.splits)

section \<open>A failing commit\<close>

text \<open>
  Claim C9. In \<^verbatim>\<open>execute_query\<close> the commit is in the \<^verbatim>\<open>else\<close> clause: when
  the statement succeeded and the commit fails, the error is raised without the handler
  running, so no rollback is attempted. In \<^verbatim>\<open>execute_non_query\<close> the commit is under
  the handler: the same failure is logged and followed by a rollback. In both methods the
  cursor is closed and the connection is put back.
\<close>

theorem commit_failure_paths:
  assumes acq: "outcome (self_getconn srv s) = Inr c"
    and cur: "srv_cursor srv = None"
    and ok: "srv_execute srv q ps = Inr rs"
    and fetch: "srv_fetchall srv = None"
    and cf: "srv_commit srv = Some ce"
  shows "events (execute_query srv q ps s) =
           events (self_getconn srv s)
           @ [EvCursor c True, EvLogInfo (''Executing query: '' @ q), EvExecute c q ps]
           @ (if truthy_description (map_option fst rs) then [EvFetchAll c] else [])
           @ [EvCommit c, EvCursorClose c]
           @ events (self_putconn srv c (final (self_getconn srv s)))
       \<and> rollbacks (events (execute_query srv q ps s)) = []
       \<and> (\<exists>x. outcome (execute_query srv q ps s) = Inl x \<and> in_chain ce x)
       \<and> (srv_cursor_close srv = None \<longrightarrow> outcome (execute_query srv q ps s) = Inl ce)
       \<and> events (execute_non_query srv q ps s) =
           events (self_getconn srv s)
           @ [EvCursor c True, EvLogInfo (''Executing non-query: '' @ q), EvExecute c q ps,
              EvCommit c, EvLogError (''Non-query execution failed: '' @ exn_msg ce),
              EvRollback c, EvCursorClose c]
           @ events (self_putconn srv c (final (self_getconn srv s)))
       \<and> rollbacks (events (execute_non_query srv q ps s)) = [c]
       \<and> (\<exists>x. outcome (execute_non_query srv q ps s) = Inl x \<and> in_chain ce x)
       \<and> cursors_closed (events (execute_query srv q ps s)) = [c]
       \<and> returned (events (execute_query srv q ps s)) = [c]
       \<and> cursors_closed (events (execute_non_query srv q ps s)) = [c]
       \<and> returned (events (execute_non_query srv q ps s)) = [c]"
proof -
  have eq: "events (execute_query srv q ps s) =
           events (self_getconn srv s)
           @ [EvCursor c True, EvLogInfo (''Executing query: '' @ q), EvExecute c q ps]
           @ (if truthy_description (map_option fst rs) then [EvFetchAll c] else [])
           @ [EvCommit c, EvCursorClose c]
           @ events (self_putconn srv c (final (self_getconn srv s)))"
    unfolding execute_query_def
    by (simp add: call_events_ok [where B = "\<lambda>conn cur. query_block srv conn cur q ps", OF final_query_block acq cur]
        query_block_commit_failed [OF ok fetch cf] cur_conn_new_cursor)
  have en: "events (execute_non_query srv q ps s) =
           events (self_getconn srv s)
           @ [EvCursor c True, EvLogInfo (''Executing non-query: '' @ q), EvExecute c q ps,
              EvCommit c, EvLogError (''Non-query execution failed: '' @ exn_msg ce),
              EvRollback c, EvCursorClose c]
           @ events (self_putconn srv c (final (self_getconn srv s)))"
    unfolding execute_non_query_def
    by (simp add: call_events_ok [where B = "\<lambda>conn cur. non_query_block srv conn cur q ps", OF final_non_query_block acq cur]
        non_query_block_commit_failed [OF ok cf] cur_conn_new_cursor)
  have rq: "rollbacks (events (execute_query srv q ps s)) = []"
    by (simp add: eq rollbacks_append pool_calls_silent)
  have rn: "rollbacks (events (execute_non_query srv q ps s)) = [c]"
    by (simp add: en rollbacks_append pool_calls_silent)
  have oq: "outcome (execute_query srv q ps s) =
     (case srv_cursor_close srv of None \<Rightarrow> Inl ce | Some f \<Rightarrow> Inl (raised_while ce f))"
    unfolding execute_query_def
    by (simp add: call_outcome [where B = "\<lambda>conn cur. query_block srv conn cur q ps", OF final_query_block acq cur]
        query_block_commit_failed [OF ok fetch cf] split: option.splits)
  have on: "outcome (execute_non_query srv q ps s) =
     (case srv_cursor_close srv of
        None \<Rightarrow> Inl (case srv_rollback srv of None \<Rightarrow> ce | Some r \<Rightarrow> raised_while ce r)
      | Some f \<Rightarrow> Inl (raised_while (case srv_rollback srv of None \<Rightarrow> ce | Some r \<Rightarrow> raised_while ce r) f))"
    unfolding execute_non_query_def
    by (simp add: call_outcome [where B = "\<lambda>conn cur. non_query_block srv conn cur q ps", OF final_non_query_block acq cur]
        non_query_block_commit_failed [OF ok cf] split: option.splits)
  have chain: "in_chain ce (case srv_rollback srv of None \<Rightarrow> ce | Some r \<Rightarrow> raised_while ce r)"
    by (simp add: in_chain_refl in_chain_raised_while split: option.splits)
  have cq: "\<exists>x. outcome (execute_query srv q ps s) = Inl x \<and> in_chain ce x"
    unfolding oq by (cases "srv_cursor_close srv") (simp_all add: in_chain_refl in_chain_raised_while)
  have cn: "\<exists>x. outcome (execute_non_query srv q ps s) = Inl x \<and> in_chain ce x"
    unfolding on using chain by (cases "srv_cursor_close srv") (simp_all add: in_chain_raised_while)
  have same: "srv_cursor_close srv = None \<longrightarrow> outcome (execute_query srv q ps s) = Inl ce"
    by (simp add: oq)
  have rel: "cursors_closed (events (execute_query srv q ps s)) = [c]"
    "returned (events (execute_query srv q ps s)) = [c]"
    "cursors_closed (events (execute_non_query srv q ps s)) = [c]"
    "returned (events (execute_non_query srv q ps s)) = [c]"
    by (simp_all add: query_observed non_query_observed query_counts non_query_counts acq cur)
  from eq rq cq same en rn cn rel show ?thesis by blast
qed


lemma commit_failing_server_simps:
  "srv_cursor commit_failing_server = None" "srv_fetchall commit_failing_server = None"
  "srv_commit commit_failing_server = Some commit_failure"
  "srv_rollback commit_failing_server = None"
  "srv_cursor_close commit_failing_server = None"
  "srv_status commit_failing_server c = TxIdle"
  "srv_execute commit_failing_server ''DELETE FROM customer'' ps = Inr None"
  by (simp_all add: commit_failing_server_def sample_server_def)

text \<open>A server that accepts the statement and then refuses the commit.\<close>

theorem commit_failure_witness:
  "outcome (self_getconn commit_failing_server ready_client) = Inr 0
   \<and> srv_cursor commit_failing_server = None
   \<and> srv_execute commit_failing_server ''DELETE FROM customer'' None = Inr None
   \<and> srv_fetchall commit_failing_server = None
   \<and> srv_commit commit_failing_server = Some commit_failure
   \<and> events (execute_query commit_failing_server ''DELETE FROM customer'' None ready_client) =
       [EvGetConn (Some 0), EvCursor 0 True,
        EvLogInfo ''Executing query: DELETE FROM customer'',
        EvExecute 0 ''DELETE FROM customer'' None, EvCommit 0, EvCursorClose 0, EvPutConn 0]
   \<and> outcome (execute_query commit_failing_server ''DELETE FROM customer'' None ready_client)
       = Inl commit_failure
   \<and> events (execute_non_query commit_failing_server ''DELETE FROM customer'' None ready_client) =
       [EvGetConn (Some 0), EvCursor 0 True,
        EvLogInfo ''Executing non-query: DELETE FROM customer'',
        EvExecute 0 ''DELETE FROM customer'' None, EvCommit 0,
        EvLogError ''Non-query execution failed: server closed the connection'',
        EvRollback 0, EvCursorClose 0, EvPutConn 0]"
proof -
  have h1: "outcome (self_getconn commit_failing_server ready_client) = Inr 0"
    by (simp add: sample_getconn)
  have h2: "srv_cursor commit_failing_server = None"
    by (simp add: commit_failing_server_simps)
  have h3: "srv_execute commit_failing_server ''DELETE FROM customer'' None = Inr None"
    by (simp add: commit_failing_server_simps)
  have h4: "srv_fetchall commit_failing_server = None"
    by (simp add: commit_failing_server_simps)
  have h5: "srv_commit commit_failing_server = Some commit_failure"
    by (simp add: commit_failing_server_simps)
  from commit_failure_paths [OF h1 h2 h3 h4 h5] h1 h2 h3 h4 h5
  show ?thesis
    by (simp add: sample_getconn sample_putconn commit_failing_server_simps
        truthy_description_def commit_failure_def)
qed

lemma dom_real_dict_row:
  assumes "length vals = length cols"
  shows "dom (real_dict_row cols vals) = set cols"
proof -
  have "dom (real_dict_row cols vals) = fst ` set (zip cols vals)"
    by (simp add: real_dict_row_def dom_map_of_conv_image_fst)
  also have "\<dots> = set (map fst (zip cols vals))" by simp
  also have "\<dots> = set cols" using assms by (simp add: map_fst_zip)
  finally show ?thesis .
qed

lemma query_block_returns:
  assumes "outcome (query_block srv c cur q ps s) = Inr res"
  shows "srv_commit srv = None"
    and "commits (events (query_block srv c cur q ps s)) = [c]"
    and "rollbacks (events (query_block srv c cur q ps s)) = []"
    and "case srv_execute srv q ps of
           Inl e \<Rightarrow> False
         | Inr None \<Rightarrow> res = []
         | Inr (Some (cols, rows)) \<Rightarrow>
             (if cols = [] then res = [] else res = map (real_dict_row cols) rows)"
proof -
  have all: "srv_commit srv = None
    \<and> commits (events (query_block srv c cur q ps s)) = [c]
    \<and> rollbacks (events (query_block srv c cur q ps s)) = []
    \<and> (case srv_execute srv q ps of
           Inl e \<Rightarrow> False
         | Inr None \<Rightarrow> res = []
         | Inr (Some (cols, rows)) \<Rightarrow>
             (if cols = [] then res = [] else res = map (real_dict_row cols) rows))"
  proof (cases "srv_execute srv q ps")
    case (Inl e)
    with assms show ?thesis
      by (simp add: query_block_def stmt_obs split: option.splits)
  next
    case (Inr rs)
    show ?thesis
    proof (cases rs)
      case None
      with Inr assms show ?thesis
        by (auto simp add: query_block_def stmt_obs truthy_description_def split: option.splits)
    next
      case (Some cr)
      obtain cols rows where cr: "cr = (cols, rows)" by (cases cr)
      show ?thesis
      proof (cases "cols = []")
        case True
        with Inr Some cr assms show ?thesis
          by (auto simp add: query_block_def stmt_obs truthy_description_def split: option.splits)
      next
        case False
        show ?thesis
        proof (cases "srv_fetchall srv")
          case None
          with False Inr Some cr assms show ?thesis
            by (auto simp add: query_block_def stmt_obs truthy_description_def
                split: option.splits)
        next
          case (Some f)
          with False Inr \<open>rs = Some cr\<close> cr assms show ?thesis
            by (simp add: query_block_def stmt_obs truthy_description_def split: option.splits)
        qed
      qed
    qed
  qed
  from all show "srv_commit srv = None" by simp
  from all show "commits (events (query_block srv c cur q ps s)) = [c]" by simp
  from all show "rollbacks (events (query_block srv c cur q ps s)) = []" by simp
  from all show "case srv_execute srv q ps of
           Inl e \<Rightarrow> False
         | Inr None \<Rightarrow> res = []
         | Inr (Some (cols, rows)) \<Rightarrow>
             (if cols = [] then res = [] else res = map (real_dict_row cols) rows)" by simp
qed

lemma execute_query_returns:
  assumes ok: "outcome (execute_query srv q ps s) = Inr res"
  shows "\<exists>c. outcome (self_getconn srv s) = Inr c \<and> srv_cursor srv = None
            \<and> outcome (query_block srv c (new_cursor c) q ps (final (self_getconn srv s))) = Inr res"
proof (cases "outcome (self_getconn srv s)")
  case (Inl e)
  with ok show ?thesis by (simp add: execute_query_def get_connection_obs)
next
  case (Inr c)
  show ?thesis
  proof (cases "srv_cursor srv")
    case (Some e)
    with ok Inr show ?thesis
      by (simp add: execute_query_def get_connection_obs try_finally_obs get_cursor_obs
          split: sum.splits)
  next
    case None
    have "outcome (execute_query srv q ps s) =
     (case srv_cursor_close srv of
        None \<Rightarrow> outcome (query_block srv c (new_cursor c) q ps (final (self_getconn srv s)))
      | Some f \<Rightarrow>
          Inl (case outcome (query_block srv c (new_cursor c) q ps (final (self_getconn srv s))) of
                 Inl e \<Rightarrow> raised_while e f | Inr v \<Rightarrow> f))"
      unfolding execute_query_def
      by (rule call_outcome [where B = "\<lambda>conn cur. query_block srv conn cur q ps", OF final_query_block Inr None])
    with ok have "outcome (query_block srv c (new_cursor c) q ps (final (self_getconn srv s))) = Inr res"
      by (simp split: option.splits)
    with Inr None show ?thesis by simp
  qed
qed

lemma query_block_success_events:
  assumes "outcome (query_block srv c cur q ps s) = Inr res"
  shows "\<exists>fetch. events (query_block srv c cur q ps s) =
           [EvLogInfo (''Executing query: '' @ q), EvExecute (cur_conn cur) q ps]
           @ fetch @ [EvCommit c]
         \<and> (fetch = [] \<or> fetch = [EvFetchAll (cur_conn cur)])"
proof (cases "srv_execute srv q ps")
  case (Inl e)
  with assms show ?thesis
    by (simp add: query_block_def stmt_obs split: option.splits)
next
  case (Inr rs)
  show ?thesis
  proof (cases "truthy_description (map_option fst rs)")
    case True
    with Inr assms show ?thesis
      by (cases "srv_fetchall srv")
        (auto simp add: query_block_def stmt_obs split: option.splits prod.splits)
  next
    case False
    with Inr assms show ?thesis
      by (auto simp add: query_block_def stmt_obs split: option.splits prod.splits)
  qed
qed

section \<open>The rows returned by \<^verbatim>\<open>execute_query\<close>\<close>

text \<open>
  What a call of \<^verbatim>\<open>execute_query\<close> that returns has done: it acquired a
  connection, ran the statement, fetched at most once, committed after the statement and
  before the releases, and made no other call. Where the statement produced no result
  set the result is empty; where the result set has columns the result has one row
  mapping per row, in order, each with the columns as its keys.
\<close>

lemma query_success_trace:
  assumes ok: "outcome (execute_query srv q ps s) = Inr res"
  shows "\<exists>c fetch. outcome (self_getconn srv s) = Inr c
           \<and> events (execute_query srv q ps s) =
               events (self_getconn srv s)
               @ [EvCursor c True, EvLogInfo (''Executing query: '' @ q), EvExecute c q ps]
               @ fetch @ [EvCommit c, EvCursorClose c]
               @ events (self_putconn srv c (final (self_getconn srv s)))
           \<and> (fetch = [] \<or> fetch = [EvFetchAll c])"
    and "case srv_execute srv q ps of
            Inl e \<Rightarrow> False
          | Inr None \<Rightarrow> res = []
          | Inr (Some (cols, rows)) \<Rightarrow>
              (if cols = [] then res = []
               else res = map (real_dict_row cols) rows
                  \<and> length res = length rows
                  \<and> (\<forall>i<length rows. length (rows ! i) = length cols
                        \<longrightarrow> dom (res ! i) = set cols))"
proof -
  from execute_query_returns [OF ok] obtain c where
    acq: "outcome (self_getconn srv s) = Inr c" and cur: "srv_cursor srv = None"
    and blk: "outcome (query_block srv c (new_cursor c) q ps (final (self_getconn srv s))) = Inr res"
    by blast
  have ev: "events (execute_query srv q ps s) =
     events (self_getconn srv s)
     @ EvCursor c True # events (query_block srv c (new_cursor c) q ps (final (self_getconn srv s)))
     @ EvCursorClose c # events (self_putconn srv c (final (self_getconn srv s)))"
    unfolding execute_query_def
    by (rule call_events_ok [where B = "\<lambda>conn cur. query_block srv conn cur q ps", OF final_query_block acq cur])
  from query_block_success_events [OF blk] obtain fetch where
    f: "events (query_block srv c (new_cursor c) q ps (final (self_getconn srv s))) =
           [EvLogInfo (''Executing query: '' @ q), EvExecute c q ps] @ fetch @ [EvCommit c]"
       "fetch = [] \<or> fetch = [EvFetchAll c]"
    by (auto simp add: cur_conn_new_cursor)
  have "events (execute_query srv q ps s) =
               events (self_getconn srv s)
               @ [EvCursor c True, EvLogInfo (''Executing query: '' @ q), EvExecute c q ps]
               @ fetch @ [EvCommit c, EvCursorClose c]
               @ events (self_putconn srv c (final (self_getconn srv s)))"
    by (simp add: ev f(1))
  with acq f(2) show "\<exists>c fetch. outcome (self_getconn srv s) = Inr c
           \<and> events (execute_query srv q ps s) =
               events (self_getconn srv s)
               @ [EvCursor c True, EvLogInfo (''Executing query: '' @ q), EvExecute c q ps]
               @ fetch @ [EvCommit c, EvCursorClose c]
               @ events (self_putconn srv c (final (self_getconn srv s)))
           \<and> (fetch = [] \<or> fetch = [EvFetchAll c])"
    by blast
  show "case srv_execute srv q ps of
            Inl e \<Rightarrow> False
          | Inr None \<Rightarrow> res = []
          | Inr (Some (cols, rows)) \<Rightarrow>
              (if cols = [] then res = []
               else res = map (real_dict_row cols) rows
                  \<and> length res = length rows
                  \<and> (\<forall>i<length rows. length (rows ! i) = length cols
                        \<longrightarrow> dom (res ! i) = set cols))"
    using query_block_returns(4) [OF blk]
    by (auto simp add: dom_real_dict_row split: sum.splits option.splits prod.splits if_splits)
qed

text \<open>The scenario of the specification: \<^verbatim>\<open>SELECT 1 AS x\<close> gives one row with key \<^verbatim>\<open>x\<close>.\<close>

lemma query_result_sample:
  "outcome (execute_query sample_server ''SELECT 1 AS x'' None ready_client)
     = Inr [real_dict_row [''x''] [PInt 1]]"
  "real_dict_row [''x''] [PInt 1] ''x'' = Some (PInt 1)"
  "dom (real_dict_row [''x''] [PInt 1]) = {''x''}"
  "events (execute_query sample_server ''SELECT 1 AS x'' None ready_client) =
     [EvGetConn (Some 0), EvCursor 0 True, EvLogInfo ''Executing query: SELECT 1 AS x'',
      EvExecute 0 ''SELECT 1 AS x'' None, EvFetchAll 0, EvCommit 0, EvCursorClose 0,
      EvPutConn 0]"
proof -
  have blk: "outcome (query_block sample_server 0 (new_cursor 0) ''SELECT 1 AS x'' None s)
               = Inr [real_dict_row [''x''] [PInt 1]]"
    "events (query_block sample_server 0 (new_cursor 0) ''SELECT 1 AS x'' None s)
       = [EvLogInfo ''Executing query: SELECT 1 AS x'', EvExecute 0 ''SELECT 1 AS x'' None,
          EvFetchAll 0, EvCommit 0]" for s
    by (simp_all add: query_block_def stmt_obs sample_server_simps truthy_description_def
        cur_conn_new_cursor)
  show "outcome (execute_query sample_server ''SELECT 1 AS x'' None ready_client)
     = Inr [real_dict_row [''x''] [PInt 1]]"
    unfolding execute_query_def
    by (simp add: call_outcome [where B = "\<lambda>conn cur. query_block sample_server conn cur ''SELECT 1 AS x'' None",
          OF final_query_block sample_getconn(1)] sample_server_simps blk)
  show "real_dict_row [''x''] [PInt 1] ''x'' = Some (PInt 1)"
    by (simp add: real_dict_row_def)
  show "dom (real_dict_row [''x''] [PInt 1]) = {''x''}"
    by (simp add: dom_real_dict_row)
  show "events (execute_query sample_server ''SELECT 1 AS x'' None ready_client) =
     [EvGetConn (Some 0), EvCursor 0 True, EvLogInfo ''Executing query: SELECT 1 AS x'',
      EvExecute 0 ''SELECT 1 AS x'' None, EvFetchAll 0, EvCommit 0, EvCursorClose 0,
      EvPutConn 0]"
    unfolding execute_query_def
    by (simp add: call_events_ok [where B = "\<lambda>conn cur. query_block sample_server conn cur ''SELECT 1 AS x'' None",
          OF final_query_block sample_getconn(1)] sample_server_simps blk sample_getconn
        sample_putconn)
qed

text \<open>
  Claim C5 says that a successful \<^verbatim>\<open>execute_query\<close> returns as many row mappings
  as the statement returns rows. The code breaks it at a statement whose result set has
  rows and no column: for \<^verbatim>\<open>SELECT FROM customer\<close>, with two rows,
  \<^verbatim>\<open>cursor.description\<close> is the empty tuple, the test
  \<^verbatim>\<open>if cursor.description:\<close> is false, \<^verbatim>\<open>fetchall\<close> is never called, the
  transaction is committed and the call returns the empty list.
\<close>

theorem zero_column_rows_dropped:
  "srv_execute sample_server ''SELECT FROM customer'' None = Inr (Some ([], [[], []]))
   \<and> outcome (execute_query sample_server ''SELECT FROM customer'' None ready_client) = Inr []
   \<and> events (execute_query sample_server ''SELECT FROM customer'' None ready_client) =
       [EvGetConn (Some 0), EvCursor 0 True,
        EvLogInfo ''Executing query: SELECT FROM customer'',
        EvExecute 0 ''SELECT FROM customer'' None, EvCommit 0, EvCursorClose 0, EvPutConn 0]"
proof -
  have blk: "outcome (query_block sample_server 0 (new_cursor 0) ''SELECT FROM customer'' None s)
               = Inr []"
    "events (query_block sample_server 0 (new_cursor 0) ''SELECT FROM customer'' None s)
       = [EvLogInfo ''Executing query: SELECT FROM customer'',
          EvExecute 0 ''SELECT FROM customer'' None, EvCommit 0]" for s
    by (simp_all add: query_block_def stmt_obs sample_server_simps truthy_description_def
        cur_conn_new_cursor)
  have o: "outcome (execute_query sample_server ''SELECT FROM customer'' None ready_client) = Inr []"
    unfolding execute_query_def
    by (simp add: call_outcome [where B = "\<lambda>conn cur. query_block sample_server conn cur ''SELECT FROM customer'' None",
          OF final_query_block sample_getconn(1)] sample_server_simps blk)
  have e: "events (execute_query sample_server ''SELECT FROM customer'' None ready_client) =
       [EvGetConn (Some 0), EvCursor 0 True,
        EvLogInfo ''Executing query: SELECT FROM customer'',
        EvExecute 0 ''SELECT FROM customer'' None, EvCommit 0, EvCursorClose 0, EvPutConn 0]"
    unfolding execute_query_def
    by (simp add: call_events_ok [where B = "\<lambda>conn cur. query_block sample_server conn cur ''SELECT FROM customer'' None",
          OF final_query_block sample_getconn(1)] sample_server_simps blk sample_getconn
        sample_putconn)
  from o e show ?thesis by (simp add: sample_server_simps)
qed

lemma pool_closeall_obs:
  "outcome (pool_closeall a s) =
     (if pool_closed (pools s a) then Inl (PoolError ''connection pool is closed'') else Inr ())"
  "events (pool_closeall a s) =
     (if pool_closed (pools s a) then [EvCloseAll]
      else EvCloseAll # map EvConnClose (pool_idle (pools s a) @ map snd (rev (pool_used (pools s a)))))"
  "final (pool_closeall a s) =
     (if pool_closed (pools s a) then s else set_pool a ((pools s a)\<lparr>pool_closed := True\<rparr>) s)"
  by (simp_all add: obs_defs pool_closeall_def Let_def)

lemma close_closes:
  assumes "self_pool s = Some a"
  shows "self_pool (final (close s)) = Some a"
    and "pool_closed (pools (final (close s)) a)"
    and "self_db_config (final (close s)) = self_db_config s"
  using assms
  by (simp_all add: close_def bind_obs logger_obs pool_closeall_obs set_pool_def)

lemma close_open_returns:
  assumes "self_pool s = Some a" and "\<not> pool_closed (pools s a)"
  shows "outcome (close s) = Inr ()"
    and "events (close s) =
           EvCloseAll # map EvConnClose (pool_idle (pools s a) @ map snd (rev (pool_used (pools s a))))
           @ [EvLogInfo ''Connection pool closed.'']"
  using assms
  by (simp_all add: close_def bind_obs logger_obs pool_closeall_obs)

lemma close_closed_raises:
  assumes "self_pool s = Some a" and "pool_closed (pools s a)"
  shows "close s = (Inl (PoolError ''connection pool is closed''), [EvCloseAll], s)"
  using assms
  by (simp add: close_def bind_prog_def pool_closeall_def Let_def)

lemma getconn_closed_raises:
  assumes "self_pool s = Some a" and "pool_closed (pools s a)"
  shows "self_getconn srv s = (Inl (PoolError ''connection pool is closed''), [EvGetConn None], s)"
  using assms by (simp add: self_getconn_def pool_getconn_def Let_def)

section \<open>Calls after \<^verbatim>\<open>close\<close>\<close>

text \<open>
  Claim C2, as the code has it. The client keeps no record of having been closed: after
  \<^verbatim>\<open>close\<close> on a client with a pool, \<^verbatim>\<open>execute_query\<close> and
  \<^verbatim>\<open>execute_non_query\<close> still call \<^verbatim>\<open>getconn\<close> on the closed pool, and the
  call fails at once with the \<^verbatim>\<open>PoolError\<close> that the driver raises there. No
  connection is opened, no statement is submitted, nothing is put back, and the state is
  left as it was, so every later call fails in the same way.
\<close>

theorem execute_after_close:
  assumes "self_pool s = Some a"
  shows "pool_closed (pools (final (close s)) a)
       \<and> execute_query srv q ps (final (close s)) =
           (Inl (PoolError ''connection pool is closed''), [EvGetConn None], final (close s))
       \<and> execute_non_query srv q ps (final (close s)) =
           (Inl (PoolError ''connection pool is closed''), [EvGetConn None], final (close s))"
proof -
  note c = close_closes(1,2) [OF assms]
  have g: "self_getconn srv (final (close s)) =
      (Inl (PoolError ''connection pool is closed''), [EvGetConn None], final (close s))"
    by (rule getconn_closed_raises [OF c])
  show ?thesis
    by (simp add: c(2) execute_query_def execute_non_query_def get_connection_def g)
qed

lemma ready_client_simps:
  "self_pool ready_client = Some 0" "\<not> pool_closed (pools ready_client 0)"
  "pool_idle (pools ready_client 0) = [0]" "pool_used (pools ready_client 0) = []"
  by (simp_all add: ready_client_def sample_pool_def)

text \<open>The ready client, closed, then asked to run a statement.\<close>

theorem execute_after_close_witness:
  "self_pool ready_client = Some 0
   \<and> outcome (close ready_client) = Inr ()
   \<and> execute_query sample_server ''SELECT 1 AS x'' None closed_client =
       (Inl (PoolError ''connection pool is closed''), [EvGetConn None], closed_client)
   \<and> execute_non_query sample_server ''DELETE FROM customer'' None closed_client =
       (Inl (PoolError ''connection pool is closed''), [EvGetConn None], closed_client)"
proof -
  have h: "self_pool ready_client = Some 0" by (simp add: ready_client_simps)
  from execute_after_close [OF h] h show ?thesis
    by (simp add: closed_client_def close_open_returns(1) ready_client_simps)
qed

text \<open>
  The exception is the driver's \<^verbatim>\<open>psycopg2.pool.PoolError\<close>, raised by the attempt
  to acquire from the closed pool; its class is not \<^verbatim>\<open>PoolClosedError\<close>.
\<close>

theorem closed_pool_error_class:
  "outcome (execute_query sample_server ''SELECT 1 AS x'' None closed_client)
     = Inl (Exn ''psycopg2.pool.PoolError'' ''connection pool is closed'' None)
   \<and> events (execute_query sample_server ''SELECT 1 AS x'' None closed_client) = [EvGetConn None]
   \<and> exn_class (Exn ''psycopg2.pool.PoolError'' ''connection pool is closed'' None)
       \<noteq> ''PoolClosedError''"
proof -
  have c: "self_pool closed_client = Some 0" "pool_closed (pools closed_client 0)"
    unfolding closed_client_def by (rule close_closes [OF ready_client_simps(1)])+
  have g: "self_getconn sample_server closed_client =
      (Inl (PoolError ''connection pool is closed''), [EvGetConn None], closed_client)"
    by (rule getconn_closed_raises [OF c])
  show ?thesis
    by (simp add: execute_query_def get_connection_def g obs_defs PoolError_def)
qed

section \<open>Closing twice\<close>

text \<open>
  Claim C4, as the code has it. \<^verbatim>\<open>close\<close> on a client whose pool is open returns
  normally and leaves the pool closed; \<^verbatim>\<open>self._pool\<close> still refers to the pool
  object, so a second \<^verbatim>\<open>close\<close> calls \<^verbatim>\<open>closeall\<close> again, which raises the
  driver's \<^verbatim>\<open>PoolError\<close>, and changes nothing.
\<close>

theorem second_close_raises:
  assumes "self_pool s = Some a" and "\<not> pool_closed (pools s a)"
  shows "outcome (close s) = Inr ()
       \<and> pool_closed (pools (final (close s)) a)
       \<and> close (final (close s)) =
           (Inl (PoolError ''connection pool is closed''), [EvCloseAll], final (close s))"
proof -
  note c = close_closes(1,2) [OF assms(1)]
  from close_open_returns(1) [OF assms] c(2) close_closed_raises [OF c]
  show ?thesis by simp
qed

text \<open>The ready client closed twice.\<close>

theorem second_close_witness:
  "self_pool ready_client = Some 0 \<and> \<not> pool_closed (pools ready_client 0)
   \<and> outcome (close ready_client) = Inr ()
   \<and> close closed_client =
       (Inl (PoolError ''connection pool is closed''), [EvCloseAll], closed_client)"
proof -
  have h1: "self_pool ready_client = Some 0" by (simp add: ready_client_simps)
  have h2: "\<not> pool_closed (pools ready_client 0)" by (simp add: ready_client_simps)
  from second_close_raises [OF h1 h2] h1 h2 show ?thesis
    by (simp add: closed_client_def)
qed

text \<open>The second of two calls of \<^verbatim>\<open>close\<close> raises.\<close>

theorem close_twice_raises:
  "outcome (close ready_client) = Inr ()
   \<and> outcome (close (final (close ready_client)))
       = Inl (Exn ''psycopg2.pool.PoolError'' ''connection pool is closed'' None)"
proof -
  have c: "self_pool (final (close ready_client)) = Some 0"
    "pool_closed (pools (final (close ready_client)) 0)"
    by (rule close_closes [OF ready_client_simps(1)])+
  have first: "outcome (close ready_client) = Inr ()"
    by (rule close_open_returns(1) [OF ready_client_simps(1,2)])
  have "outcome (close (final (close ready_client)))
       = Inl (Exn ''psycopg2.pool.PoolError'' ''connection pool is closed'' None)"
    by (simp add: close_closed_raises [OF c] outcome_def PoolError_def)
  with first show ?thesis by simp
qed




lemma getconn_without_lease:
  assumes sp: "self_pool s = Some a" and op: "\<not> pool_closed (pools s a)"
    and nu: "pool_used (pools s a) = []" and mx: "1 \<le> pool_maxconn (pools s a)"
  shows "self_pool (final (self_getconn srv s)) = Some a
       \<and> \<not> pool_closed (pools (final (self_getconn srv s)) a)
       \<and> pool_maxconn (pools (final (self_getconn srv s)) a) = pool_maxconn (pools s a)
       \<and> (case outcome (self_getconn srv s) of
            Inl e \<Rightarrow> pool_used (pools (final (self_getconn srv s)) a) = []
                     \<and> acquired (events (self_getconn srv s)) = []
                     \<and> refused (events (self_getconn srv s)) = 1
          | Inr c \<Rightarrow> (\<exists>k. pool_used (pools (final (self_getconn srv s)) a) = [(k, c)])
                     \<and> acquired (events (self_getconn srv s)) = [c]
                     \<and> refused (events (self_getconn srv s)) = 0)"
proof -
  from sp have eq: "self_getconn srv s = pool_getconn srv a s" by (simp add: self_getconn_def)
  show ?thesis
  proof (cases "pool_idle (pools s a) = []")
    case False
    with sp op nu show ?thesis
      by (simp add: eq obs_defs pool_getconn_def set_pool_def Let_def)
  next
    case True
    with sp op nu mx show ?thesis
      by (simp add: eq obs_defs pool_getconn_def set_pool_def Let_def driver_connect_def
          split: option.splits)
  qed
qed

lemma putconn_sole_lease:
  assumes sp: "self_pool s = Some a" and op: "\<not> pool_closed (pools s a)"
    and us: "pool_used (pools s a) = [(k, c)]"
  shows "self_pool (final (self_putconn srv c s)) = Some a
       \<and> \<not> pool_closed (pools (final (self_putconn srv c s)) a)
       \<and> pool_maxconn (pools (final (self_putconn srv c s)) a) = pool_maxconn (pools s a)
       \<and> pool_used (pools (final (self_putconn srv c s)) a) = []"
  using assms
  by (simp add: self_putconn_def obs_defs pool_putconn_def set_pool_def Let_def key_of_def
      split: conn_status.splits)

lemma no_lease_iff:
  "no_lease s \<longleftrightarrow>
     (\<exists>a. self_pool s = Some a \<and> \<not> pool_closed (pools s a) \<and> pool_used (pools s a) = [])"
  by (simp add: no_lease_def split: option.splits)

lemma call_without_lease:
  fixes srv :: server and s :: state and B :: "conn \<Rightarrow> cursor \<Rightarrow> 'a prog"
  assumes pure: "\<And>c cur s. final (B c cur s) = s"
    and stmt: "\<And>c cur s. list_all stmt_event (events (B c cur s))"
    and sp: "self_pool s = Some a" and op: "\<not> pool_closed (pools s a)"
    and nu: "pool_used (pools s a) = []" and mx: "1 \<le> pool_maxconn (pools s a)"
  defines "R \<equiv> get_connection srv (\<lambda>conn. get_cursor srv conn (B conn)) s"
  shows "self_pool (final R) = Some a \<and> \<not> pool_closed (pools (final R) a)
       \<and> pool_used (pools (final R) a) = []
       \<and> pool_maxconn (pools (final R) a) = pool_maxconn (pools s a)
       \<and> length (acquired (events R)) + refused (events R) = 1"
proof -
  let ?G = "self_getconn srv s"
  note g = getconn_without_lease [OF sp op nu mx, of srv]
  show ?thesis
  proof (cases "outcome ?G")
    case (Inl e)
    with g show ?thesis
      by (simp add: R_def call_final [OF pure] call_events [OF pure])
  next
    case (Inr c)
    with g obtain k where k: "pool_used (pools (final ?G) a) = [(k, c)]" by auto
    from g have sp1: "self_pool (final ?G) = Some a"
      and op1: "\<not> pool_closed (pools (final ?G) a)" by simp_all
    note p = putconn_sole_lease [OF sp1 op1 k]
    from g Inr have gev: "acquired (events ?G) = [c]" "refused (events ?G) = 0" by simp_all
    have "length (acquired (events R)) + refused (events R) = 1"
      by (simp add: R_def call_events [OF pure] Inr observer_append gev
          self_putconn_observed [OF sp1] stmt_events_silent [OF stmt] split: option.splits)
    with p g show ?thesis
      by (simp add: R_def call_final [OF pure] Inr)
  qed
qed

lemma run_call_obs:
  "events (run_call srv (Query q ps) s) = events (execute_query srv q ps s)"
  "final (run_call srv (Query q ps) s) = final (execute_query srv q ps s)"
  "events (run_call srv (NonQuery q ps) s) = events (execute_non_query srv q ps s)"
  "final (run_call srv (NonQuery q ps) s) = final (execute_non_query srv q ps s)"
  by (simp_all add: run_call_def bind_obs ret_obs split: sum.splits)

lemma run_call_without_lease:
  assumes sp: "self_pool s = Some a" and op: "\<not> pool_closed (pools s a)"
    and nu: "pool_used (pools s a) = []" and mx: "1 \<le> pool_maxconn (pools s a)"
  shows "self_pool (final (run_call srv cl s)) = Some a
       \<and> \<not> pool_closed (pools (final (run_call srv cl s)) a)
       \<and> pool_used (pools (final (run_call srv cl s)) a) = []
       \<and> pool_maxconn (pools (final (run_call srv cl s)) a) = pool_maxconn (pools s a)
       \<and> length (acquired (events (run_call srv cl s))) + refused (events (run_call srv cl s)) = 1
       \<and> returned (events (run_call srv cl s)) = acquired (events (run_call srv cl s))"
proof (cases cl)
  case (Query q ps)
  from call_without_lease [where B = "\<lambda>conn cur. query_block srv conn cur q ps" and srv = srv,
      OF final_query_block stmt_events_query_block sp op nu mx]
  show ?thesis
    by (simp add: Query run_call_obs execute_query_def [symmetric] query_observed(1))
next
  case (NonQuery q ps)
  from call_without_lease [where B = "\<lambda>conn cur. non_query_block srv conn cur q ps" and srv = srv,
      OF final_non_query_block stmt_events_non_query_block sp op nu mx]
  show ?thesis
    by (simp add: NonQuery run_call_obs execute_non_query_def [symmetric] non_query_observed(1))
qed

lemma run_calls_without_lease:
  assumes "self_pool s = Some a" and "\<not> pool_closed (pools s a)"
    and "pool_used (pools s a) = []" and "1 \<le> pool_maxconn (pools s a)"
  shows "case run_calls calls s of
           (rs, evs, s') \<Rightarrow>
             self_pool s' = Some a \<and> \<not> pool_closed (pools s' a) \<and> pool_used (pools s' a) = []
             \<and> length rs = length calls
             \<and> returned evs = acquired evs
             \<and> length (acquired evs) + refused evs = length calls"
  using assms
proof (induction calls arbitrary: s)
  case Nil
  then show ?case by simp
next
  case (Cons sc calls)
  obtain srv cl where sc: "sc = (srv, cl)" by (cases sc)
  obtain r evs s1 where r: "run_call srv cl s = (r, evs, s1)" by (cases "run_call srv cl s")
  from run_call_without_lease [OF Cons.prems, of srv cl] r
  have s1: "self_pool s1 = Some a" "\<not> pool_closed (pools s1 a)" "pool_used (pools s1 a) = []"
    "1 \<le> pool_maxconn (pools s1 a)"
    and ev: "length (acquired evs) + refused evs = 1" "returned evs = acquired evs"
    using Cons.prems(4) by (simp_all add: obs_defs)
  obtain rs evs2 s2 where rest: "run_calls calls s1 = (rs, evs2, s2)"
    by (cases "run_calls calls s1")
  from Cons.IH [OF s1] rest ev show ?case
    by (simp add: sc r observer_append)
qed

section \<open>No connection is leaked\<close>

text \<open>
  Claim C3. In every call of \<^verbatim>\<open>execute_query\<close> and \<^verbatim>\<open>execute_non_query\<close>, from
  any state \<open>t\<close> and whatever the server answers (statement, commit, rollback or close
  succeeding or failing): when \<^verbatim>\<open>getconn\<close> gave the connection \<open>c\<close>, exactly \<open>c\<close>
  is put back, once; when the cursor was created, it is closed, once; when
  \<^verbatim>\<open>getconn\<close> raised, nothing is put back and nothing is closed. So, on a pool of
  maximum size 1 with no connection lent, any number of calls issued one after the other
  leave no connection lent, and each of them either acquired a connection or met a
  server that refused to open one: the pool never turned a call away.
\<close>

theorem connections_always_returned:
  assumes "self_pool s = Some a" and "pool_maxconn (pools s a) = 1" and "no_lease s"
  shows "returned (events (execute_query srv q ps t)) =
           (case outcome (self_getconn srv t) of Inl e \<Rightarrow> [] | Inr c \<Rightarrow> [c])
       \<and> cursors_closed (events (execute_query srv q ps t)) =
           (case outcome (self_getconn srv t) of
              Inl e \<Rightarrow> []
            | Inr c \<Rightarrow> if srv_cursor srv = None then [c] else [])
       \<and> returned (events (execute_non_query srv q ps t)) =
           (case outcome (self_getconn srv t) of Inl e \<Rightarrow> [] | Inr c \<Rightarrow> [c])
       \<and> cursors_closed (events (execute_non_query srv q ps t)) =
           (case outcome (self_getconn srv t) of
              Inl e \<Rightarrow> []
            | Inr c \<Rightarrow> if srv_cursor srv = None then [c] else [])
       \<and> returned (events (execute_query srv q ps t)) = acquired (events (execute_query srv q ps t))
       \<and> cursors_closed (events (execute_query srv q ps t))
           = cursors_opened (events (execute_query srv q ps t))
       \<and> returned (events (execute_non_query srv q ps t))
           = acquired (events (execute_non_query srv q ps t))
       \<and> cursors_closed (events (execute_non_query srv q ps t))
           = cursors_opened (events (execute_non_query srv q ps t))
       \<and> (case run_calls calls s of
            (rs, evs, s') \<Rightarrow>
              no_lease s' \<and> length rs = length calls \<and> returned evs = acquired evs
              \<and> length (acquired evs) + refused evs = length calls)"
proof -
  from assms have inv: "self_pool s = Some a" "\<not> pool_closed (pools s a)"
    "pool_used (pools s a) = []" "1 \<le> pool_maxconn (pools s a)"
    by (simp_all add: no_lease_def)
  from run_calls_without_lease [OF inv, of calls]
  have "case run_calls calls s of
            (rs, evs, s') \<Rightarrow>
              no_lease s' \<and> length rs = length calls \<and> returned evs = acquired evs
              \<and> length (acquired evs) + refused evs = length calls"
    by (auto simp add: no_lease_def)
  then show ?thesis
    by (simp add: query_observed(1,2) non_query_observed(1,2) query_counts non_query_counts)
qed

lemma single_pool_client_simps:
  "self_pool single_pool_client = Some 0" "pool_maxconn (pools single_pool_client 0) = 1"
  "no_lease single_pool_client"
  by (simp_all add: single_pool_client_def sample_pool_def no_lease_def)

lemma single_pool_getconn:
  "outcome (self_getconn srv single_pool_client) = Inr 0"
  by (simp add: obs_defs self_getconn_def pool_getconn_def single_pool_client_def sample_pool_def
      set_pool_def Let_def)

text \<open>
  Five calls in a row on a pool of maximum size 1, three of them failing and one of them
  losing its connection; and one failing call looked at alone.
\<close>

theorem connections_returned_witness:
  "self_pool single_pool_client = Some 0 \<and> pool_maxconn (pools single_pool_client 0) = 1
   \<and> no_lease single_pool_client
   \<and> returned (events (execute_query killed_server ''SELECT 1 AS x'' None single_pool_client)) = [0]
   \<and> cursors_closed (events (execute_query killed_server ''SELECT 1 AS x'' None single_pool_client))
       = [0]
   \<and> (case run_calls sample_calls single_pool_client of
         (rs, evs, s') \<Rightarrow>
           no_lease s' \<and> length rs = 5 \<and> returned evs = acquired evs
           \<and> length (acquired evs) + refused evs = 5)"
proof -
  note h = single_pool_client_simps
  have n: "length sample_calls = 5" by (simp add: sample_calls_def)
  have k: "srv_cursor killed_server = None" by (simp add: killed_server_def sample_server_def)
  from connections_always_returned [OF h, where calls = sample_calls and srv = killed_server
      and t = single_pool_client and q = "''SELECT 1 AS x''" and ps = None] h
  show ?thesis by (simp add: n k single_pool_getconn)
qed

text \<open>
  A connection that is dead when it is given back is dropped by the pool, and the next
  call opens a new one.
\<close>

lemma dead_connection_dropped:
  "pool_idle (pools (final (execute_query killed_server ''SELECT 1 AS x'' None ready_client)) 0) = []"
  "pool_used (pools (final (execute_query killed_server ''SELECT 1 AS x'' None ready_client)) 0) = []"
  "events (self_getconn sample_server
             (final (execute_query killed_server ''SELECT 1 AS x'' None ready_client)))
     = [EvConnect (Some 1), EvGetConn (Some 1)]"
proof -
  have f: "final (execute_query killed_server ''SELECT 1 AS x'' None ready_client) =
      final (self_putconn killed_server 0 (final (self_getconn killed_server ready_client)))"
    unfolding execute_query_def
    by (simp add: call_final [where B = "\<lambda>conn cur. query_block killed_server conn cur ''SELECT 1 AS x'' None",
          OF final_query_block] sample_getconn)
  show "pool_idle (pools (final (execute_query killed_server ''SELECT 1 AS x'' None ready_client)) 0) = []"
    unfolding f
    by (simp add: obs_defs self_getconn_def pool_getconn_def self_putconn_def pool_putconn_def
        ready_client_def sample_pool_def set_pool_def Let_def key_of_def killed_server_def
        sample_server_def)
  show "pool_used (pools (final (execute_query killed_server ''SELECT 1 AS x'' None ready_client)) 0) = []"
    unfolding f
    by (simp add: obs_defs self_getconn_def pool_getconn_def self_putconn_def pool_putconn_def
        ready_client_def sample_pool_def set_pool_def Let_def key_of_def killed_server_def
        sample_server_def)
  show "events (self_getconn sample_server
             (final (execute_query killed_server ''SELECT 1 AS x'' None ready_client)))
     = [EvConnect (Some 1), EvGetConn (Some 1)]"
    unfolding f
    by (simp add: obs_defs self_getconn_def pool_getconn_def self_putconn_def pool_putconn_def
        ready_client_def sample_pool_def set_pool_def Let_def key_of_def killed_server_def
        sample_server_def driver_connect_def)
qed

lemma driver_connect_obs:
  "outcome (driver_connect srv kw s) =
     (case srv_connect srv kw (next_conn s) of Some e \<Rightarrow> Inl e | None \<Rightarrow> Inr (next_conn s))"
  "events (driver_connect srv kw s) =
     [EvConnect (case srv_connect srv kw (next_conn s) of Some e \<Rightarrow> None
                 | None \<Rightarrow> Some (next_conn s))]"
  "final (driver_connect srv kw s) =
     (case srv_connect srv kw (next_conn s) of Some e \<Rightarrow> s
      | None \<Rightarrow> s\<lparr>next_conn := Suc (next_conn s)\<rparr>)"
  by (simp_all add: obs_defs driver_connect_def split: option.splits)

lemma connect_n_frame:
  "self_pool (final (connect_n srv kw n acc s)) = self_pool s
   \<and> self_db_config (final (connect_n srv kw n acc s)) = self_db_config s
   \<and> pools (final (connect_n srv kw n acc s)) = pools s
   \<and> next_addr (final (connect_n srv kw n acc s)) = next_addr s"
proof (induction n arbitrary: acc s)
  case 0
  show ?case by (simp add: ret_obs)
next
  case (Suc n)
  show ?case
  proof (cases "srv_connect srv kw (next_conn s)")
    case None
    with Suc [of "acc @ [next_conn s]" "s\<lparr>next_conn := Suc (next_conn s)\<rparr>"]
    show ?thesis by (simp add: bind_obs driver_connect_obs)
  next
    case (Some e)
    then show ?thesis by (simp add: bind_obs driver_connect_obs)
  qed
qed

lemma connect_n_accepted:
  assumes "\<forall>i<n. srv_connect srv kw (next_conn s + i) = None"
  shows "outcome (connect_n srv kw n acc s) = Inr (acc @ [next_conn s..<next_conn s + n])
       \<and> events (connect_n srv kw n acc s)
           = map (\<lambda>c. EvConnect (Some c)) [next_conn s..<next_conn s + n]"
  using assms
proof (induction n arbitrary: acc s)
  case 0
  show ?case by (simp add: ret_obs)
next
  case (Suc n)
  from Suc.prems have first: "srv_connect srv kw (next_conn s) = None" by force
  from Suc.prems have rest:
    "\<forall>i<n. srv_connect srv kw (next_conn (s\<lparr>next_conn := Suc (next_conn s)\<rparr>) + i) = None"
    by force
  from Suc.IH [OF rest, of "acc @ [next_conn s]"] first
  show ?case by (simp add: bind_obs driver_connect_obs upt_conv_Cons)
qed

lemma connect_n_length:
  "outcome (connect_n srv kw n acc s) = Inr cs \<Longrightarrow> length cs = length acc + n"
proof (induction n arbitrary: acc s)
  case 0
  then show ?case by (auto simp add: ret_obs)
next
  case (Suc n)
  show ?case
  proof (cases "srv_connect srv kw (next_conn s)")
    case None
    with Suc.prems have
      "outcome (connect_n srv kw n (acc @ [next_conn s]) (s\<lparr>next_conn := Suc (next_conn s)\<rparr>)) = Inr cs"
      by (simp add: bind_obs driver_connect_obs)
    from Suc.IH [OF this] show ?thesis by simp
  next
    case (Some e)
    with Suc.prems show ?thesis by (simp add: bind_obs driver_connect_obs)
  qed
qed

lemma connect_n_refused:
  assumes "srv_connect srv kw (next_conn s) = Some e"
  shows "outcome (connect_n srv kw (Suc n) acc s) = Inl e"
    and "events (connect_n srv kw (Suc n) acc s) = [EvConnect None]"
  using assms by (simp_all add: bind_obs driver_connect_obs)

lemma pool_new_obs:
  "outcome (pool_new srv mn mx kw s) =
     (case outcome (connect_n srv kw (nat mn) [] s) of
        Inl e \<Rightarrow> Inl e | Inr cs \<Rightarrow> Inr (next_addr s))"
  "events (pool_new srv mn mx kw s) = events (connect_n srv kw (nat mn) [] s)"
  "self_pool (final (pool_new srv mn mx kw s)) = self_pool s"
  "self_db_config (final (pool_new srv mn mx kw s)) = self_db_config s"
  "outcome (connect_n srv kw (nat mn) [] s) = Inr cs \<Longrightarrow>
     pools (final (pool_new srv mn mx kw s)) (next_addr s) =
       \<lparr>pool_minconn = mn, pool_maxconn = mx, pool_closed = False, pool_kwargs = kw,
        pool_idle = cs, pool_used = [], pool_keys = 0\<rparr>"
proof -
  obtain r evs s1 where cn: "connect_n srv kw (nat mn) [] s = (r, evs, s1)"
    by (cases "connect_n srv kw (nat mn) [] s")
  from connect_n_frame [of srv kw "nat mn" "[]" s] cn
  have fr: "self_pool s1 = self_pool s" "self_db_config s1 = self_db_config s"
    "pools s1 = pools s" "next_addr s1 = next_addr s"
    by (simp_all add: final_def)
  show "outcome (pool_new srv mn mx kw s) =
     (case outcome (connect_n srv kw (nat mn) [] s) of
        Inl e \<Rightarrow> Inl e | Inr cs \<Rightarrow> Inr (next_addr s))"
    by (cases r) (simp_all add: pool_new_def bind_prog_def cn outcome_def fr)
  show "events (pool_new srv mn mx kw s) = events (connect_n srv kw (nat mn) [] s)"
    by (cases r) (simp_all add: pool_new_def bind_prog_def cn events_def)
  show "self_pool (final (pool_new srv mn mx kw s)) = self_pool s"
    by (cases r) (simp_all add: pool_new_def bind_prog_def cn final_def fr set_pool_def)
  show "self_db_config (final (pool_new srv mn mx kw s)) = self_db_config s"
    by (cases r) (simp_all add: pool_new_def bind_prog_def cn final_def fr set_pool_def)
  show "pools (final (pool_new srv mn mx kw s)) (next_addr s) =
       \<lparr>pool_minconn = mn, pool_maxconn = mx, pool_closed = False, pool_kwargs = kw,
        pool_idle = cs, pool_used = [], pool_keys = 0\<rparr>"
    if "outcome (connect_n srv kw (nat mn) [] s) = Inr cs"
    using that
    by (simp add: pool_new_def bind_prog_def cn final_def outcome_def fr set_pool_def)
qed

lemma subscript_obs:
  "outcome (subscript k entry s) = (case entry of None \<Rightarrow> Inl (KeyError k) | Some v \<Rightarrow> Inr v)"
  "events (subscript k entry s) = []"
  "final (subscript k entry s) = s"
  by (simp_all add: subscript_def ret_obs py_raise_obs split: option.splits)

lemma set_self_obs:
  "outcome (set_self_pool r s) = Inr ()" "events (set_self_pool r s) = []"
  "final (set_self_pool r s) = s\<lparr>self_pool := r\<rparr>"
  "outcome (set_self_db_config cfg s) = Inr ()" "events (set_self_db_config cfg s) = []"
  "final (set_self_db_config cfg s) = s\<lparr>self_db_config := cfg\<rparr>"
  by (simp_all add: obs_defs set_self_pool_def set_self_db_config_def)

text \<open>The state in which the pool is built, and the arguments given to its constructor.\<close>

lemma init_with_keys:
  fixes s :: state and srv :: server and cfg :: config
  assumes keys: "cfg_dbname cfg = Some d" "cfg_user cfg = Some u" "cfg_password cfg = Some pw"
    "cfg_host cfg = Some h" "cfg_port cfg = Some po"
  defines "s0 \<equiv> s\<lparr>self_db_config := cfg, self_pool := None\<rparr>"
  defines "CN \<equiv> connect_n srv [d, u, pw, h, po] (nat (dict_get (cfg_minconn cfg) 1)) [] s0"
  shows "outcome (DB_init srv cfg s) = (case outcome CN of Inl e \<Rightarrow> Inl e | Inr cs \<Rightarrow> Inr ())"
    and "events (DB_init srv cfg s) =
           events CN @ (case outcome CN of
              Inl e \<Rightarrow> [EvLogError (''Failed to initialize connection pool: '' @ exn_msg e)]
            | Inr cs \<Rightarrow> [EvLogInfo ''Connection pool initialized successfully.''])"
    and "self_pool (final (DB_init srv cfg s)) =
           (case outcome CN of Inl e \<Rightarrow> None | Inr cs \<Rightarrow> Some (next_addr s))"
    and "self_db_config (final (DB_init srv cfg s)) = cfg"
    and "outcome CN = Inr cs \<Longrightarrow>
           pools (final (DB_init srv cfg s)) (next_addr s) =
             \<lparr>pool_minconn = dict_get (cfg_minconn cfg) 1,
              pool_maxconn = dict_get (cfg_maxconn cfg) 10,
              pool_closed = False, pool_kwargs = [d, u, pw, h, po],
              pool_idle = cs, pool_used = [], pool_keys = 0\<rparr>"
proof -
  let ?P = "pool_new srv (dict_get (cfg_minconn cfg) 1) (dict_get (cfg_maxconn cfg) 10) [d, u, pw, h, po] s0"
  have s0: "self_db_config s0 = cfg" "self_pool s0 = None" "next_addr s0 = next_addr s"
    by (simp_all add: s0_def)
  have po: "outcome ?P = (case outcome CN of Inl e \<Rightarrow> Inl e | Inr cs \<Rightarrow> Inr (next_addr s))"
    "events ?P = events CN" "self_pool (final ?P) = None" "self_db_config (final ?P) = cfg"
    by (simp_all add: pool_new_obs CN_def s0 split: sum.splits)
  show "outcome (DB_init srv cfg s) = (case outcome CN of Inl e \<Rightarrow> Inl e | Inr cs \<Rightarrow> Inr ())"
    by (simp add: DB_init_def initialize_connection_pool_def bind_obs set_self_obs
        try_except_obs subscript_obs logger_obs py_raise_obs s0_def [symmetric] s0 keys po
        split: sum.splits)
  show "events (DB_init srv cfg s) =
           events CN @ (case outcome CN of
              Inl e \<Rightarrow> [EvLogError (''Failed to initialize connection pool: '' @ exn_msg e)]
            | Inr cs \<Rightarrow> [EvLogInfo ''Connection pool initialized successfully.''])"
    by (simp add: DB_init_def initialize_connection_pool_def bind_obs set_self_obs
        try_except_obs subscript_obs logger_obs py_raise_obs s0_def [symmetric] s0 keys po
        split: sum.splits)
  show "self_pool (final (DB_init srv cfg s)) =
           (case outcome CN of Inl e \<Rightarrow> None | Inr cs \<Rightarrow> Some (next_addr s))"
    by (simp add: DB_init_def initialize_connection_pool_def bind_obs set_self_obs
        try_except_obs subscript_obs logger_obs py_raise_obs s0_def [symmetric] s0 keys po
        split: sum.splits)
  show "self_db_config (final (DB_init srv cfg s)) = cfg"
    by (simp add: DB_init_def initialize_connection_pool_def bind_obs set_self_obs
        try_except_obs subscript_obs logger_obs py_raise_obs s0_def [symmetric] s0 keys po
        split: sum.splits)
  show "pools (final (DB_init srv cfg s)) (next_addr s) =
             \<lparr>pool_minconn = dict_get (cfg_minconn cfg) 1,
              pool_maxconn = dict_get (cfg_maxconn cfg) 10,
              pool_closed = False, pool_kwargs = [d, u, pw, h, po],
              pool_idle = cs, pool_used = [], pool_keys = 0\<rparr>"
    if ok: "outcome CN = Inr cs"
    using pool_new_obs(5) [of srv "[d, u, pw, h, po]" "dict_get (cfg_minconn cfg) 1" s0 cs
        "dict_get (cfg_maxconn cfg) 10"] ok
    by (simp add: DB_init_def initialize_connection_pool_def bind_obs set_self_obs
        try_except_obs subscript_obs logger_obs py_raise_obs s0_def [symmetric] s0 keys po
        CN_def [symmetric])
qed

lemma init_missing_key:
  assumes "cfg_dbname cfg = None \<or> cfg_user cfg = None \<or> cfg_password cfg = None
           \<or> cfg_host cfg = None \<or> cfg_port cfg = None"
  shows "\<exists>e. outcome (DB_init srv cfg s) = Inl e"
    and "self_pool (final (DB_init srv cfg s)) = None"
  using assms
  by (auto simp add: DB_init_def initialize_connection_pool_def bind_obs set_self_obs
      try_except_obs subscript_obs logger_obs py_raise_obs split: option.splits sum.splits)


lemma init_refused:
  assumes keys: "cfg_dbname cfg = Some d" "cfg_user cfg = Some u" "cfg_password cfg = Some pw"
    "cfg_host cfg = Some h" "cfg_port cfg = Some po"
    and mc: "1 \<le> dict_get (cfg_minconn cfg) 1"
    and no: "srv_connect srv [d, u, pw, h, po] (next_conn s) = Some e"
  shows "outcome (DB_init srv cfg s) = Inl e"
    and "events (DB_init srv cfg s) =
           [EvConnect None, EvLogError (''Failed to initialize connection pool: '' @ exn_msg e)]"
    and "self_pool (final (DB_init srv cfg s)) = None"
proof -
  from mc obtain n where n: "nat (dict_get (cfg_minconn cfg) 1) = Suc n"
    by (cases "nat (dict_get (cfg_minconn cfg) 1)") auto
  from no have no': "srv_connect srv [d, u, pw, h, po]
      (next_conn (s\<lparr>self_db_config := cfg, self_pool := None\<rparr>)) = Some e" by simp
  note cn = connect_n_refused [OF no', of n "[]"]
  show "outcome (DB_init srv cfg s) = Inl e"
    by (simp add: init_with_keys(1) [OF keys] n cn del: connect_n.simps)
  show "events (DB_init srv cfg s) =
           [EvConnect None, EvLogError (''Failed to initialize connection pool: '' @ exn_msg e)]"
    by (simp add: init_with_keys(2) [OF keys] n cn del: connect_n.simps)
  show "self_pool (final (DB_init srv cfg s)) = None"
    by (simp add: init_with_keys(3) [OF keys] n cn del: connect_n.simps)
qed

section \<open>Construction that fails\<close>

text \<open>
  Claim C6, as the code has it. Construction never half succeeds: either the constructor
  raises and \<^verbatim>\<open>self._pool\<close> is \<^verbatim>\<open>None\<close>, or it returns and
  \<^verbatim>\<open>self._pool\<close> is an open pool with no connection lent and its eager connections
  idle. When the configuration has the five connection keys, asks for at least one eager
  connection and the server refuses the first connection with the error \<open>e\<close>, the
  constructor logs the failure and raises \<open>e\<close> itself, the error of the driver; it is not
  turned into a \<^verbatim>\<open>ConnectionPoolInitError\<close>.
\<close>

theorem construction_all_or_nothing:
  "(case outcome (DB_init srv cfg s) of
      Inl x \<Rightarrow> self_pool (final (DB_init srv cfg s)) = None
    | Inr v \<Rightarrow>
        (\<exists>a. self_pool (final (DB_init srv cfg s)) = Some a
            \<and> \<not> pool_closed (pools (final (DB_init srv cfg s)) a)
            \<and> pool_used (pools (final (DB_init srv cfg s)) a) = []
            \<and> length (pool_idle (pools (final (DB_init srv cfg s)) a))
                = nat (dict_get (cfg_minconn cfg) 1)))
   \<and> (cfg_dbname cfg = Some d \<and> cfg_user cfg = Some u \<and> cfg_password cfg = Some pw
        \<and> cfg_host cfg = Some h \<and> cfg_port cfg = Some po
        \<and> 1 \<le> dict_get (cfg_minconn cfg) 1
        \<and> srv_connect srv [d, u, pw, h, po] (next_conn s) = Some e
      \<longrightarrow> outcome (DB_init srv cfg s) = Inl e
          \<and> events (DB_init srv cfg s) =
              [EvConnect None,
               EvLogError (''Failed to initialize connection pool: '' @ exn_msg e)]
          \<and> self_pool (final (DB_init srv cfg s)) = None)"
proof -
  have refusal: "cfg_dbname cfg = Some d \<and> cfg_user cfg = Some u \<and> cfg_password cfg = Some pw
        \<and> cfg_host cfg = Some h \<and> cfg_port cfg = Some po
        \<and> 1 \<le> dict_get (cfg_minconn cfg) 1
        \<and> srv_connect srv [d, u, pw, h, po] (next_conn s) = Some e
      \<longrightarrow> outcome (DB_init srv cfg s) = Inl e
          \<and> events (DB_init srv cfg s) =
              [EvConnect None,
               EvLogError (''Failed to initialize connection pool: '' @ exn_msg e)]
          \<and> self_pool (final (DB_init srv cfg s)) = None"
    using init_refused [of cfg d u pw h po srv s e] by blast
  have either: "case outcome (DB_init srv cfg s) of
      Inl x \<Rightarrow> self_pool (final (DB_init srv cfg s)) = None
    | Inr v \<Rightarrow>
        (\<exists>a. self_pool (final (DB_init srv cfg s)) = Some a
            \<and> \<not> pool_closed (pools (final (DB_init srv cfg s)) a)
            \<and> pool_used (pools (final (DB_init srv cfg s)) a) = []
            \<and> length (pool_idle (pools (final (DB_init srv cfg s)) a))
                = nat (dict_get (cfg_minconn cfg) 1))"
  proof (cases "cfg_dbname cfg = None \<or> cfg_user cfg = None \<or> cfg_password cfg = None
           \<or> cfg_host cfg = None \<or> cfg_port cfg = None")
    case True
    from init_missing_key [OF True, of srv s] show ?thesis by auto
  next
    case False
    then obtain d' u' pw' h' po' where keys: "cfg_dbname cfg = Some d'" "cfg_user cfg = Some u'"
      "cfg_password cfg = Some pw'" "cfg_host cfg = Some h'" "cfg_port cfg = Some po'"
      by auto
    let ?CN = "connect_n srv [d', u', pw', h', po'] (nat (dict_get (cfg_minconn cfg) 1)) []
                 (s\<lparr>self_db_config := cfg, self_pool := None\<rparr>)"
    show ?thesis
    proof (cases "outcome ?CN")
      case (Inl x)
      then show ?thesis
        by (simp add: init_with_keys(1,3) [OF keys])
    next
      case (Inr cs)
      from connect_n_length [OF Inr] have "length cs = nat (dict_get (cfg_minconn cfg) 1)" by simp
      with Inr show ?thesis
        by (simp add: init_with_keys(1,3) [OF keys] init_with_keys(5) [OF keys Inr])
    qed
  qed
  from either refusal show ?thesis by blast
qed

lemma sample_config_simps:
  "cfg_dbname sample_config = Some (PStr ''chinook'')"
  "cfg_user sample_config = Some (PStr ''postgres'')"
  "cfg_password sample_config = Some (PStr ''postgres'')"
  "cfg_host sample_config = Some (PStr ''localhost'')"
  "cfg_port sample_config = Some (PStr ''5432'')"
  "cfg_minconn sample_config = Some 1" "cfg_maxconn sample_config = Some 5"
  by (simp_all add: sample_config_def)

lemma default_size_config_simps:
  "cfg_dbname default_size_config = Some (PStr ''chinook'')"
  "cfg_user default_size_config = Some (PStr ''postgres'')"
  "cfg_password default_size_config = Some (PStr ''postgres'')"
  "cfg_host default_size_config = Some (PStr ''localhost'')"
  "cfg_port default_size_config = Some (PStr ''5432'')"
  "cfg_minconn default_size_config = None" "cfg_maxconn default_size_config = None"
  by (simp_all add: default_size_config_def sample_config_def)

text \<open>The sample configuration against a server that refuses every connection.\<close>

theorem construction_refused_witness:
  "cfg_dbname sample_config = Some (PStr ''chinook'')
   \<and> cfg_user sample_config = Some (PStr ''postgres'')
   \<and> cfg_password sample_config = Some (PStr ''postgres'')
   \<and> cfg_host sample_config = Some (PStr ''localhost'')
   \<and> cfg_port sample_config = Some (PStr ''5432'')
   \<and> 1 \<le> dict_get (cfg_minconn sample_config) 1
   \<and> srv_connect unreachable_server
        [PStr ''chinook'', PStr ''postgres'', PStr ''postgres'', PStr ''localhost'', PStr ''5432'']
        (next_conn new_client) = Some connection_refused
   \<and> outcome (DB_init unreachable_server sample_config new_client) = Inl connection_refused
   \<and> events (DB_init unreachable_server sample_config new_client) =
       [EvConnect None,
        EvLogError ''Failed to initialize connection pool: connection refused'']
   \<and> self_pool (final (DB_init unreachable_server sample_config new_client)) = None"
proof -
  have h: "srv_connect unreachable_server
        [PStr ''chinook'', PStr ''postgres'', PStr ''postgres'', PStr ''localhost'', PStr ''5432'']
        (next_conn new_client) = Some connection_refused"
    by (simp add: unreachable_server_def)
  have m: "1 \<le> dict_get (cfg_minconn sample_config) 1"
    by (simp add: sample_config_simps dict_get_def)
  from construction_all_or_nothing [of unreachable_server sample_config new_client
      "PStr ''chinook''" "PStr ''postgres''" "PStr ''postgres''" "PStr ''localhost''"
      "PStr ''5432''" connection_refused] h m
  show ?thesis
    by (simp add: sample_config_simps connection_refused_def)
qed

text \<open>
  The exception raised by the constructor is the driver's
  \<^verbatim>\<open>psycopg2.OperationalError\<close>; \<^verbatim>\<open>db.py\<close> re-raises it as it is.
\<close>

theorem construction_error_class:
  "outcome (DB_init unreachable_server sample_config new_client) = Inl connection_refused
   \<and> exn_class connection_refused \<noteq> ''ConnectionPoolInitError''"
proof -
  have h: "srv_connect unreachable_server
        [PStr ''chinook'', PStr ''postgres'', PStr ''postgres'', PStr ''localhost'', PStr ''5432'']
        (next_conn new_client) = Some connection_refused"
    by (simp add: unreachable_server_def)
  have m: "1 \<le> dict_get (cfg_minconn sample_config) 1"
    by (simp add: sample_config_simps dict_get_def)
  from init_refused(1) [OF sample_config_simps(1-5) m h]
  show ?thesis by (simp add: connection_refused_def)
qed

section \<open>Construction that succeeds\<close>

text \<open>
  Claim C7. For a configuration with the five connection keys and a non-negative
  \<^verbatim>\<open>minconn\<close> (1 when the key is absent), against a server that accepts the
  connections asked for, the constructor returns and \<^verbatim>\<open>self._pool\<close> is an open pool
  whose \<^verbatim>\<open>minconn\<close> is the configured value or 1, whose \<^verbatim>\<open>maxconn\<close> is the
  configured value or 10, and whose idle connections are exactly \<^verbatim>\<open>minconn\<close>
  distinct connections; these are the only connections opened, none is closed and none
  is lent.
\<close>

theorem construction_opens_minconn:
  assumes keys: "cfg_dbname cfg = Some d" "cfg_user cfg = Some u" "cfg_password cfg = Some pw"
    "cfg_host cfg = Some h" "cfg_port cfg = Some po"
    and mc: "0 \<le> dict_get (cfg_minconn cfg) 1"
    and acc: "\<forall>i<nat (dict_get (cfg_minconn cfg) 1).
                srv_connect srv [d, u, pw, h, po] (next_conn s + i) = None"
  shows "outcome (DB_init srv cfg s) = Inr ()
       \<and> (\<exists>a. self_pool (final (DB_init srv cfg s)) = Some a
             \<and> pool_minconn (pools (final (DB_init srv cfg s)) a)
                 = (case cfg_minconn cfg of None \<Rightarrow> 1 | Some m \<Rightarrow> m)
             \<and> pool_maxconn (pools (final (DB_init srv cfg s)) a)
                 = (case cfg_maxconn cfg of None \<Rightarrow> 10 | Some m \<Rightarrow> m)
             \<and> int (length (pool_idle (pools (final (DB_init srv cfg s)) a)))
                 = pool_minconn (pools (final (DB_init srv cfg s)) a)
             \<and> distinct (pool_idle (pools (final (DB_init srv cfg s)) a))
             \<and> pool_used (pools (final (DB_init srv cfg s)) a) = []
             \<and> \<not> pool_closed (pools (final (DB_init srv cfg s)) a)
             \<and> events (DB_init srv cfg s) =
                 map (\<lambda>c. EvConnect (Some c)) (pool_idle (pools (final (DB_init srv cfg s)) a))
                 @ [EvLogInfo ''Connection pool initialized successfully.''])"
proof -
  let ?n = "nat (dict_get (cfg_minconn cfg) 1)"
  let ?s0 = "s\<lparr>self_db_config := cfg, self_pool := None\<rparr>"
  let ?cs = "[next_conn s..<next_conn s + ?n]"
  from acc have acc': "\<forall>i<?n. srv_connect srv [d, u, pw, h, po] (next_conn ?s0 + i) = None"
    by simp
  from connect_n_accepted [OF acc', of "[]"]
  have cn: "outcome (connect_n srv [d, u, pw, h, po] ?n [] ?s0) = Inr ?cs"
    "events (connect_n srv [d, u, pw, h, po] ?n [] ?s0) = map (\<lambda>c. EvConnect (Some c)) ?cs"
    by simp_all
  have len: "int (length ?cs) = dict_get (cfg_minconn cfg) 1" using mc by simp
  have dmin: "dict_get (cfg_minconn cfg) 1 = (case cfg_minconn cfg of None \<Rightarrow> 1 | Some m \<Rightarrow> m)"
    and dmax: "dict_get (cfg_maxconn cfg) 10 = (case cfg_maxconn cfg of None \<Rightarrow> 10 | Some m \<Rightarrow> m)"
    by (simp_all add: dict_get_def)
  have o: "outcome (DB_init srv cfg s) = Inr ()"
    by (simp add: init_with_keys(1) [OF keys] cn(1))
  have sp: "self_pool (final (DB_init srv cfg s)) = Some (next_addr s)"
    by (simp add: init_with_keys(3) [OF keys] cn(1))
  have ev: "events (DB_init srv cfg s) =
      map (\<lambda>c. EvConnect (Some c)) ?cs @ [EvLogInfo ''Connection pool initialized successfully.'']"
    by (simp add: init_with_keys(2) [OF keys] cn)
  note pl = init_with_keys(5) [OF keys cn(1)]
  have body: "pool_minconn (pools (final (DB_init srv cfg s)) (next_addr s))
                 = (case cfg_minconn cfg of None \<Rightarrow> 1 | Some m \<Rightarrow> m)
             \<and> pool_maxconn (pools (final (DB_init srv cfg s)) (next_addr s))
                 = (case cfg_maxconn cfg of None \<Rightarrow> 10 | Some m \<Rightarrow> m)
             \<and> int (length (pool_idle (pools (final (DB_init srv cfg s)) (next_addr s))))
                 = pool_minconn (pools (final (DB_init srv cfg s)) (next_addr s))
             \<and> distinct (pool_idle (pools (final (DB_init srv cfg s)) (next_addr s)))
             \<and> pool_used (pools (final (DB_init srv cfg s)) (next_addr s)) = []
             \<and> \<not> pool_closed (pools (final (DB_init srv cfg s)) (next_addr s))
             \<and> events (DB_init srv cfg s) =
                 map (\<lambda>c. EvConnect (Some c))
                   (pool_idle (pools (final (DB_init srv cfg s)) (next_addr s)))
                 @ [EvLogInfo ''Connection pool initialized successfully.'']"
    unfolding pl ev using len dmin dmax by simp
  from o sp body show ?thesis by blast
qed

text \<open>A configuration without \<^verbatim>\<open>minconn\<close> and \<^verbatim>\<open>maxconn\<close>: one connection, sizes 1 and 10.\<close>

theorem construction_defaults_witness:
  "cfg_dbname default_size_config = Some (PStr ''chinook'')
   \<and> cfg_user default_size_config = Some (PStr ''postgres'')
   \<and> cfg_password default_size_config = Some (PStr ''postgres'')
   \<and> cfg_host default_size_config = Some (PStr ''localhost'')
   \<and> cfg_port default_size_config = Some (PStr ''5432'')
   \<and> 0 \<le> dict_get (cfg_minconn default_size_config) 1
   \<and> outcome (DB_init sample_server default_size_config new_client) = Inr ()
   \<and> (\<exists>a. self_pool (final (DB_init sample_server default_size_config new_client)) = Some a
         \<and> pool_minconn (pools (final (DB_init sample_server default_size_config new_client)) a) = 1
         \<and> pool_maxconn (pools (final (DB_init sample_server default_size_config new_client)) a) = 10
         \<and> int (length (pool_idle (pools (final (DB_init sample_server default_size_config new_client)) a))) = 1)"
proof -
  have m: "0 \<le> dict_get (cfg_minconn default_size_config) 1"
    by (simp add: default_size_config_simps dict_get_def)
  have a: "\<forall>i<nat (dict_get (cfg_minconn default_size_config) 1).
      srv_connect sample_server
        [PStr ''chinook'', PStr ''postgres'', PStr ''postgres'', PStr ''localhost'', PStr ''5432'']
        (next_conn new_client + i) = None"
    by (simp add: sample_server_def)
  from construction_opens_minconn [OF default_size_config_simps(1-5) m a] m
  show ?thesis
    by (auto simp add: default_size_config_simps)
qed

text \<open>The sample client \<open>ready_client\<close> is what the constructor builds from the sample configuration.\<close>

lemma ready_client_constructed:
  "outcome (DB_init sample_server sample_config new_client) = Inr ()"
  "events (DB_init sample_server sample_config new_client) =
     [EvConnect (Some 0), EvLogInfo ''Connection pool initialized successfully.'']"
  "self_pool (final (DB_init sample_server sample_config new_client)) = self_pool ready_client"
  "self_db_config (final (DB_init sample_server sample_config new_client))
     = self_db_config ready_client"
  "pools (final (DB_init sample_server sample_config new_client)) 0 = pools ready_client 0"
proof -
  have cn: "outcome (connect_n sample_server
      [PStr ''chinook'', PStr ''postgres'', PStr ''postgres'', PStr ''localhost'', PStr ''5432'']
      (nat (dict_get (cfg_minconn sample_config) 1)) []
      (new_client\<lparr>self_db_config := sample_config, self_pool := None\<rparr>)) = Inr [0]"
    "events (connect_n sample_server
      [PStr ''chinook'', PStr ''postgres'', PStr ''postgres'', PStr ''localhost'', PStr ''5432'']
      (nat (dict_get (cfg_minconn sample_config) 1)) []
      (new_client\<lparr>self_db_config := sample_config, self_pool := None\<rparr>)) = [EvConnect (Some 0)]"
    by (simp_all add: sample_config_simps dict_get_def bind_obs driver_connect_obs ret_obs
        sample_server_def new_client_def)
  have na: "next_addr new_client = 0" by (simp add: new_client_def)
  show "outcome (DB_init sample_server sample_config new_client) = Inr ()"
    by (simp add: init_with_keys(1) [OF sample_config_simps(1-5)] cn)
  show "events (DB_init sample_server sample_config new_client) =
     [EvConnect (Some 0), EvLogInfo ''Connection pool initialized successfully.'']"
    by (simp add: init_with_keys(2) [OF sample_config_simps(1-5)] cn)
  show "self_pool (final (DB_init sample_server sample_config new_client)) = self_pool ready_client"
    by (simp add: init_with_keys(3) [OF sample_config_simps(1-5)] cn na ready_client_def)
  show "self_db_config (final (DB_init sample_server sample_config new_client))
     = self_db_config ready_client"
    by (simp add: init_with_keys(4) [OF sample_config_simps(1-5)] ready_client_def)
  show "pools (final (DB_init sample_server sample_config new_client)) 0 = pools ready_client 0"
    using init_with_keys(5) [OF sample_config_simps(1-5) cn(1)]
    by (simp add: na ready_client_def sample_pool_def sample_config_simps dict_get_def)
qed


end
